theory Spec2Isabelle
  imports Complex_Main "HOL-Library.AList"
begin

section \<open>Partition Stage (reorganize.ts): staged keys and dates\<close>

text \<open>
  Object names are modelled as \<^typ>\<open>string\<close>: a list of code units below 256. The
  regular expression classes are read on that alphabet: \<open>\d\<close> is the ten ASCII digits and
  \<open>.\<close> is every character but the line terminators LF and CR.
\<close>

definition isDigit :: "char \<Rightarrow> bool" where
  "isDigit c = (c \<in> set ''0123456789'')"

definition isLineTerminator :: "char \<Rightarrow> bool" where
  "isLineTerminator c = (c = CHR 0x0A \<or> c = CHR 0x0D)"

definition digitVal :: "char \<Rightarrow> int" where
  "digitVal c = int (of_char c) - 48"

text \<open>\<open>parseInt\<close> on a string of decimal digits (the only strings the callers pass).\<close>

definition parseInt :: "string \<Rightarrow> int" where
  "parseInt s = foldl (\<lambda>a c. 10 * a + digitVal c) 0 s"

subsection \<open>Day numbers and time values of the JavaScript Date\<close>

text \<open>
  \<open>DayFromYear\<close> and \<open>MakeDay\<close> are the abstract operations of the language standard:
  months count from 0, a month outside 0..11 carries into the year, and a day of month
  outside the month carries into the neighbouring months because it is simply added to
  the day number of the first.
\<close>

definition msPerDay :: int where
  "msPerDay = 86400000"

definition DayFromYear :: "int \<Rightarrow> int" where
  "DayFromYear y =
     365 * (y - 1970) + (y - 1969) div 4 - (y - 1901) div 100 + (y - 1601) div 400"

definition InLeapYear :: "int \<Rightarrow> bool" where
  "InLeapYear y = (y mod 4 = 0 \<and> (y mod 100 \<noteq> 0 \<or> y mod 400 = 0))"

definition monthStart :: "int \<Rightarrow> int \<Rightarrow> int" where
  "monthStart y mn =
     [0, 31, 59, 90, 120, 151, 181, 212, 243, 273, 304, 334] ! nat mn
       + (if InLeapYear y \<and> 2 \<le> mn then 1 else 0)"

definition MakeDay :: "int \<Rightarrow> int \<Rightarrow> int \<Rightarrow> int" where
  "MakeDay year month dt =
     (let ym = year + month div 12;
          mn = month mod 12
      in DayFromYear ym + monthStart ym mn + dt - 1)"

text \<open>
  A Date holds a time value, milliseconds since the epoch in UTC, or is an Invalid Date
  (\<open>None\<close>, the time value \<open>NaN\<close>). \<open>TimeClip\<close> makes every time value beyond
  8.64e15 milliseconds (100,000,000 days) invalid.
\<close>

definition maxTime :: int where
  "maxTime = 8640000000000000"

definition TimeClip :: "int \<Rightarrow> int option" where
  "TimeClip t = (if abs t \<le> maxTime then Some t else None)"

text \<open>
  The time zone of the process, by the two conversions of the standard: \<open>UTC(t)\<close> from a
  local time value to a UTC one (total: a local time that was skipped or that occurred
  twice is given one instant) and \<open>LocalTime(t)\<close> back.
\<close>

record timeZone =
  zone_UTC :: "int \<Rightarrow> int"
  zone_LocalTime :: "int \<Rightarrow> int"

text \<open>
  \<open>new Date(year, monthIndex, day)\<close>: a year from 0 to 99 means 1900 + year; the time of
  day is local midnight.
\<close>

definition newDate :: "timeZone \<Rightarrow> int \<Rightarrow> int \<Rightarrow> int \<Rightarrow> int option" where
  "newDate z y m d =
     (let yr = (if 0 \<le> y \<and> y \<le> 99 then 1900 + y else y)
      in TimeClip (zone_UTC z (MakeDay yr m d * msPerDay)))"

text \<open>
  A reading of the clock (\<open>new Date()\<close>), given by the local calendar fields that
  \<open>getFullYear\<close>, \<open>getMonth\<close> (0..11) and \<open>getDate\<close> report, and the milliseconds since
  local midnight.
\<close>

record localTime =
  lt_year :: int
  lt_month :: int
  lt_date :: int
  lt_timeInDay :: int

text \<open>
  \<open>setDate(dt)\<close> on the Date of a clock reading keeps the local year, month and time of
  day and replaces the day of month; the argument \<open>NaN\<close> (\<open>None\<close>) gives an Invalid Date.
\<close>

definition setDate :: "timeZone \<Rightarrow> localTime \<Rightarrow> int option \<Rightarrow> int option" where
  "setDate z t dt =
     (case dt of
        None \<Rightarrow> None
      | Some d \<Rightarrow>
          TimeClip (zone_UTC z (MakeDay (lt_year t) (lt_month t) d * msPerDay + lt_timeInDay t)))"

text \<open>
  \<open>setHours(0, 0, 0, 0)\<close>: local midnight of the Date's local day; an Invalid Date stays
  invalid.
\<close>

definition setHoursZero :: "timeZone \<Rightarrow> int option \<Rightarrow> int option" where
  "setHoursZero z u =
     (case u of
        None \<Rightarrow> None
      | Some tv \<Rightarrow> TimeClip (zone_UTC z ((zone_LocalTime z tv div msPerDay) * msPerDay)))"

text \<open>\<open>a >= b\<close> on two Dates compares the time values; with an Invalid Date it is false.\<close>

definition dateGe :: "int option \<Rightarrow> int option \<Rightarrow> bool" where
  "dateGe a b =
     (case a of
        None \<Rightarrow> False
      | Some x \<Rightarrow> (case b of None \<Rightarrow> False | Some y \<Rightarrow> y \<le> x))"

subsection \<open>parseFilePath, isWithinDateRange, buildHivePath\<close>

record ParsedFile =
  year :: string
  month :: string
  day :: string
  filename :: string
  fullPath :: string
  date :: "int option"

text \<open>
  \<open>FILE_PATH_REGEX\<close> is anchored at both ends and every group before the file name has a
  fixed width, so a match is decided position by position: the prefix, four digits, a
  slash, two digits, a slash, two digits, a slash, and a rest that ends in \<open>.csv.gz\<close>, has
  at least one character before that suffix, and holds no line terminator. The result is
  the four groups.
\<close>

definition FILE_PATH_REGEX :: "string \<Rightarrow> (string \<times> string \<times> string \<times> string) option" where
  "FILE_PATH_REGEX path =
     (let r = drop 14 path;
          y = take 4 r; m = take 2 (drop 5 r); d = take 2 (drop 8 r); f = drop 11 r
      in if take 14 path = ''FOCUS-Reports/''
            \<and> length y = 4 \<and> list_all isDigit y \<and> take 1 (drop 4 r) = ''/''
            \<and> length m = 2 \<and> list_all isDigit m \<and> take 1 (drop 7 r) = ''/''
            \<and> length d = 2 \<and> list_all isDigit d \<and> take 1 (drop 10 r) = ''/''
            \<and> 7 < length f \<and> drop (length f - 7) f = ''.csv.gz''
            \<and> \<not> list_ex isLineTerminator f
         then Some (y, m, d, f) else None)"

text \<open>The Date is built in the time zone \<open>z\<close> of the process.\<close>

definition parseFilePath :: "timeZone \<Rightarrow> string \<Rightarrow> ParsedFile option" where
  "parseFilePath z path =
     (case FILE_PATH_REGEX path of
        None \<Rightarrow> None
      | Some (y, m, d, f) \<Rightarrow>
          Some \<lparr> year = y, month = m, day = d, filename = f, fullPath = path,
                 date = newDate z (parseInt y) (parseInt m - 1) (parseInt d) \<rparr>)"

text \<open>
  The local variable \<open>cutoffDate\<close> of \<open>isWithinDateRange\<close>: a copy of the clock reading,
  after \<open>setDate(getDate() - daysToSync)\<close> and \<open>setHours(0, 0, 0, 0)\<close>. The day count is an
  integer or \<open>NaN\<close> (\<open>None\<close>), the two things \<open>parseInt\<close> yields.
\<close>

definition cutoffDate :: "timeZone \<Rightarrow> localTime \<Rightarrow> int option \<Rightarrow> int option" where
  "cutoffDate z now daysToSync =
     setHoursZero z (setDate z now (map_option (\<lambda>n. lt_date now - n) daysToSync))"

definition isWithinDateRange ::
  "timeZone \<Rightarrow> int option \<Rightarrow> int option \<Rightarrow> localTime \<Rightarrow> bool" where
  "isWithinDateRange z fileDate daysToSync now = dateGe fileDate (cutoffDate z now daysToSync)"

definition buildHivePath :: "ParsedFile \<Rightarrow> string" where
  "buildHivePath parsed =
     ''year='' @ year parsed @ ''/month='' @ month parsed @ ''/day='' @ day parsed
       @ ''/'' @ filename parsed"

section \<open>Partition Stage: configuration, object store, environment\<close>

text \<open>
  The configuration as \<open>Config\<close> declares it: the sync mode is one of the two declared
  values; the day count is what \<open>parseInt\<close> yields, an integer or \<open>NaN\<close> (\<open>None\<close>). The
  log level only selects log lines, which the Partition Stage model leaves out, so it is
  not a field here.
\<close>

datatype syncMode = Full | Incremental

record Config =
  oci_remoteName :: string
  oci_tenancyOcid :: string
  gcs_remoteName :: string
  gcs_stagingBucket :: string
  gcs_hiveBucket :: string
  gcs_projectId :: string
  job_syncMode :: syncMode
  job_daysToSync :: "int option"
  job_dryRun :: bool

text \<open>
  The object store behind the Storage client: the buckets that exist, the objects of each
  bucket in listing order (name and content), and the mutating requests served so far
  (bucket creations and object copies), kept so that "no mutating operation" can be
  stated.
\<close>

datatype call =
  CreateBucket string string
| CopyObject string string string string

record gcs =
  buckets :: "string list"
  objects :: "string \<Rightarrow> (string \<times> string) list"
  calls :: "call list"

text \<open>
  What the stage cannot decide itself comes from the environment of one run: the time
  zone of the process, the clock reading taken while the listed file number \<open>i\<close> is
  examined, the two readings of \<open>Date.now()\<close>, and the requests that fail. A stage-level request (bucket existence,
  bucket creation, listing) fails with a message; during the copy loop the iteration
  \<open>i\<close> may fail in its existence check or in its copy.
\<close>

datatype request = BucketExists string | CreateBucketReq string | GetFiles string

datatype objectFault = ExistsFails string | CopyFails string

record env =
  zone :: timeZone
  clock :: "nat \<Rightarrow> localTime"
  startTime :: int
  endTime :: int
  stageFault :: "request \<Rightarrow> string option"
  objectFault :: "nat \<Rightarrow> objectFault option"

definition bucketExists :: "env \<Rightarrow> gcs \<Rightarrow> string \<Rightarrow> string + bool" where
  "bucketExists e s b =
     (case stageFault e (BucketExists b) of
        Some msg \<Rightarrow> Inl msg
      | None \<Rightarrow> Inr (b \<in> set (buckets s)))"

definition createBucket :: "env \<Rightarrow> gcs \<Rightarrow> string \<Rightarrow> string \<Rightarrow> string + gcs" where
  "createBucket e s b location =
     (case stageFault e (CreateBucketReq b) of
        Some msg \<Rightarrow> Inl msg
      | None \<Rightarrow>
          Inr (s\<lparr> buckets := buckets s @ [b], calls := calls s @ [CreateBucket b location] \<rparr>))"

text \<open>The names of a bucket's objects that start with the prefix, in listing order.\<close>

definition listObjects :: "gcs \<Rightarrow> string \<Rightarrow> string \<Rightarrow> string list" where
  "listObjects s b prefix =
     filter (\<lambda>n. take (length prefix) n = prefix) (map fst (objects s b))"

definition getFiles :: "env \<Rightarrow> gcs \<Rightarrow> string \<Rightarrow> string \<Rightarrow> string + string list" where
  "getFiles e s b prefix =
     (case stageFault e (GetFiles b) of
        Some msg \<Rightarrow> Inl msg
      | None \<Rightarrow> Inr (listObjects s b prefix))"

definition fileExists :: "env \<Rightarrow> nat \<Rightarrow> gcs \<Rightarrow> string \<Rightarrow> string \<Rightarrow> string + bool" where
  "fileExists e i s b n =
     (case objectFault e i of
        Some (ExistsFails msg) \<Rightarrow> Inl msg
      | _ \<Rightarrow> Inr (map_of (objects s b) n \<noteq> None))"

text \<open>
  A server-side copy writes the source's content under the destination name (replacing
  what is there) and is recorded among the served calls; copying a source that does not
  exist fails. A request that fails leaves the store as it was.
\<close>

definition copyFile ::
  "env \<Rightarrow> nat \<Rightarrow> gcs \<Rightarrow> string \<Rightarrow> string \<Rightarrow> string \<Rightarrow> string \<Rightarrow> string + gcs" where
  "copyFile e i s sb sn db dn =
     (case objectFault e i of
        Some (CopyFails msg) \<Rightarrow> Inl msg
      | _ \<Rightarrow>
          (case map_of (objects s sb) sn of
             None \<Rightarrow> Inl ''No such object''
           | Some content \<Rightarrow>
               Inr (s\<lparr> objects := (objects s)(db := AList.update dn content (objects s db)),
                        calls := calls s @ [CopyObject sb sn db dn] \<rparr>)))"

definition ensureBucketExists ::
  "env \<Rightarrow> gcs \<Rightarrow> string \<Rightarrow> string \<Rightarrow> string + gcs \<times> bool" where
  "ensureBucketExists e s bucketName location =
     (case bucketExists e s bucketName of
        Inl msg \<Rightarrow> Inl msg
      | Inr exists \<Rightarrow>
          if \<not> exists then
            (case createBucket e s bucketName location of
               Inl msg \<Rightarrow> Inl msg
             | Inr s' \<Rightarrow> Inr (s', True))
          else Inr (s, True))"

definition checkBucketExists :: "env \<Rightarrow> gcs \<Rightarrow> string \<Rightarrow> string + bool" where
  "checkBucketExists e s bucketName = bucketExists e s bucketName"

section \<open>Partition Stage: reorganizeToHive\<close>

record ReorganizeResult =
  files_processed :: nat
  files_copied :: nat
  files_skipped :: nat
  files_errored :: nat
  duration_seconds :: int

text \<open>\<open>Math.round((Date.now() - startTime) / 1000)\<close>: round half up.\<close>

definition durationSeconds :: "env \<Rightarrow> int" where
  "durationSeconds e = (endTime e - startTime e + 500) div 1000"

text \<open>The parse-and-filter loop over the listing (its three local variables).\<close>

record scanState =
  parsedFiles :: "ParsedFile list"
  skippedNonMatching :: nat
  skippedOutOfRange :: nat

definition scanFile :: "Config \<Rightarrow> env \<Rightarrow> scanState \<Rightarrow> nat \<times> string \<Rightarrow> scanState" where
  "scanFile config e st f =
     (case parseFilePath (zone e) (snd f) of
        None \<Rightarrow> st\<lparr> skippedNonMatching := skippedNonMatching st + 1 \<rparr>
      | Some parsed \<Rightarrow>
          if job_syncMode config = Incremental
             \<and> \<not> isWithinDateRange (zone e) (date parsed) (job_daysToSync config)
                   (clock e (fst f))
          then st\<lparr> skippedOutOfRange := skippedOutOfRange st + 1 \<rparr>
          else st\<lparr> parsedFiles := parsedFiles st @ [parsed] \<rparr>)"

definition scanFiles :: "Config \<Rightarrow> env \<Rightarrow> string list \<Rightarrow> scanState" where
  "scanFiles config e files =
     foldl (scanFile config e)
       \<lparr> parsedFiles = [], skippedNonMatching = 0, skippedOutOfRange = 0 \<rparr>
       (enumerate 0 files)"

text \<open>
  The copy loop: the store and the four local variables \<open>filesCopied\<close>, \<open>filesSkipped\<close>,
  \<open>filesErrored\<close>, \<open>errors\<close>. The body of the \<open>try\<close> is the existence check and the copy;
  the \<open>catch\<close> records the path and the message and counts the error.
\<close>

record copyState =
  store :: gcs
  filesCopied :: nat
  filesSkipped :: nat
  filesErrored :: nat
  errors :: "(string \<times> string) list"

definition catchError :: "copyState \<Rightarrow> ParsedFile \<Rightarrow> string \<Rightarrow> copyState" where
  "catchError st parsed errorMessage =
     st\<lparr> errors := errors st @ [(fullPath parsed, errorMessage)],
         filesErrored := filesErrored st + 1 \<rparr>"

definition copyOne :: "Config \<Rightarrow> env \<Rightarrow> copyState \<Rightarrow> nat \<times> ParsedFile \<Rightarrow> copyState" where
  "copyOne config e st ip =
     (let i = fst ip; parsed = snd ip; hivePath = buildHivePath parsed
      in case fileExists e i (store st) (gcs_hiveBucket config) hivePath of
           Inl msg \<Rightarrow> catchError st parsed msg
         | Inr exists \<Rightarrow>
             if exists then st\<lparr> filesSkipped := filesSkipped st + 1 \<rparr>
             else
               (case copyFile e i (store st) (gcs_stagingBucket config) (fullPath parsed)
                       (gcs_hiveBucket config) hivePath of
                  Inl msg \<Rightarrow> catchError st parsed msg
                | Inr s' \<Rightarrow> st\<lparr> store := s', filesCopied := filesCopied st + 1 \<rparr>))"

definition copyFiles :: "Config \<Rightarrow> env \<Rightarrow> gcs \<Rightarrow> ParsedFile list \<Rightarrow> copyState" where
  "copyFiles config e s ps =
     foldl (copyOne config e)
       \<lparr> store = s, filesCopied = 0, filesSkipped = 0, filesErrored = 0, errors = [] \<rparr>
       (enumerate 0 ps)"

text \<open>
  The run from the listing on (after the bucket checks): the store it leaves and either
  the message of a stage-fatal error or the result together with the per-object errors
  that are reported after the summary.
\<close>

type_synonym outcome = "string + ReorganizeResult \<times> (string \<times> string) list"

definition listAndCopy :: "env \<Rightarrow> Config \<Rightarrow> gcs \<Rightarrow> gcs \<times> outcome" where
  "listAndCopy e config s =
     (case getFiles e s (gcs_stagingBucket config) ''FOCUS-Reports/'' of
        Inl msg \<Rightarrow> (s, Inl msg)
      | Inr files \<Rightarrow>
          (let ps = parsedFiles (scanFiles config e files)
           in if job_dryRun config then
                (s, Inr (\<lparr> files_processed = length ps, files_copied = 0, files_skipped = 0,
                            files_errored = 0, duration_seconds = durationSeconds e \<rparr>, []))
              else
                (let st = copyFiles config e s ps
                 in (store st,
                     Inr (\<lparr> files_processed = length ps, files_copied = filesCopied st,
                            files_skipped = filesSkipped st, files_errored = filesErrored st,
                            duration_seconds = durationSeconds e \<rparr>, errors st)))))"

definition bucketLocation :: string where
  "bucketLocation = ''europe-west3''"

definition reorganizeToHive :: "env \<Rightarrow> Config \<Rightarrow> gcs \<Rightarrow> gcs \<times> outcome" where
  "reorganizeToHive e config s =
     (if job_dryRun config then
        (case checkBucketExists e s (gcs_stagingBucket config) of
           Inl msg \<Rightarrow> (s, Inl msg)
         | Inr stagingExists \<Rightarrow>
             (case checkBucketExists e s (gcs_hiveBucket config) of
                Inl msg \<Rightarrow> (s, Inl msg)
              | Inr hiveExists \<Rightarrow>
                  if \<not> stagingExists then
                    (s, Inr (\<lparr> files_processed = 0, files_copied = 0, files_skipped = 0,
                                files_errored = 0, duration_seconds = durationSeconds e \<rparr>, []))
                  else listAndCopy e config s))
      else
        (case ensureBucketExists e s (gcs_stagingBucket config) bucketLocation of
           Inl msg \<Rightarrow> (s, Inl msg)
         | Inr (s1, _) \<Rightarrow>
             (case ensureBucketExists e s1 (gcs_hiveBucket config) bucketLocation of
                Inl msg \<Rightarrow> (s1, Inl msg)
              | Inr (s2, _) \<Rightarrow> listAndCopy e config s2)))"

section \<open>Mirror Stage (sync.ts)\<close>

subsection \<open>Numbers and strings\<close>

text \<open>
  A JavaScript number is modelled by its exact value, or \<open>NaN\<close>. (The code works with the
  nearest double; the two agree wherever the double is exact, as for a decimal literal
  like \<open>1.5\<close> and its products with powers of 1024.)
\<close>

datatype number = NaN | Num rat

definition timesNum :: "number \<Rightarrow> rat \<Rightarrow> number" where
  "timesNum x k = (case x of NaN \<Rightarrow> NaN | Num v \<Rightarrow> Num (v * k))"

text \<open>\<open>Math.round\<close>: the nearest integer, a half rounded up.\<close>

definition mathRound :: "number \<Rightarrow> number" where
  "mathRound x = (case x of NaN \<Rightarrow> NaN | Num v \<Rightarrow> Num (of_int (round v)))"

text \<open>\<open>x || 0\<close> on an optional number: \<open>undefined\<close>, \<open>NaN\<close> and 0 give 0.\<close>

definition orZero :: "number option \<Rightarrow> rat" where
  "orZero x = (case x of None \<Rightarrow> 0 | Some NaN \<Rightarrow> 0 | Some (Num v) \<Rightarrow> v)"

text \<open>\<open>s.split(sep)\<close> for a one-character separator.\<close>

fun splitStr :: "char \<Rightarrow> string \<Rightarrow> string list" where
  "splitStr sep [] = [[]]"
| "splitStr sep (c # cs) =
     (if c = sep then [] # splitStr sep cs
      else (case splitStr sep cs of [] \<Rightarrow> [[c]] | l # ls \<Rightarrow> (c # l) # ls))"

text \<open>Upper case of the letters a to z (the only letters the stage compares).\<close>

definition toUpper :: "char \<Rightarrow> char" where
  "toUpper c =
     (case map_of (zip ''abcdefghijklmnopqrstuvwxyz'' ''ABCDEFGHIJKLMNOPQRSTUVWXYZ'') c of
        None \<Rightarrow> c
      | Some u \<Rightarrow> u)"

definition toUpperCase :: "string \<Rightarrow> string" where
  "toUpperCase s = map toUpper s"

text \<open>\<open>\s\<close> on the modelled alphabet: tab, LF, VT, FF, CR, space, no-break space.\<close>

definition isSpace :: "char \<Rightarrow> bool" where
  "isSpace c = (c \<in> set [CHR 0x09, CHR 0x0A, CHR 0x0B, CHR 0x0C, CHR 0x0D, CHR 0x20, CHR 0xA0])"

definition isDigitOrDot :: "char \<Rightarrow> bool" where
  "isDigitOrDot c = (isDigit c \<or> c = CHR ''.'')"

text \<open>
  \<open>parseFloat\<close> on a string of digits and dots (what the byte pattern captures): the
  longest prefix that is a decimal literal, \<open>NaN\<close> when there is none.
\<close>

definition parseFloat :: "string \<Rightarrow> number" where
  "parseFloat s =
     (let ip = takeWhile isDigit s; r = dropWhile isDigit s;
          fp = (case r of [] \<Rightarrow> [] | c # r' \<Rightarrow> if c = CHR ''.'' then takeWhile isDigit r' else [])
      in if ip = [] \<and> fp = [] then NaN
         else Num (of_int (parseInt ip) + of_int (parseInt fp) / 10 ^ length fp))"

fun showNat :: "nat \<Rightarrow> string" where
  "showNat n =
     (if n < 10 then [char_of (48 + n)] else showNat (n div 10) @ [char_of (48 + n mod 10)])"

text \<open>A number in a template literal (used for exit codes).\<close>

definition showInt :: "int \<Rightarrow> string" where
  "showInt i = (if i < 0 then ''-'' @ showNat (nat (- i)) else showNat (nat i))"

subsection \<open>The two textual patterns\<close>

text \<open>
  \<open>output.match(re)\<close> without the global flag finds the leftmost position at which the
  pattern matches. In both patterns every repeated class is followed by something outside
  that class, so the greedy match at a position is the only one and is computed left to
  right.
\<close>

fun search :: "(string \<Rightarrow> 'a option) \<Rightarrow> string \<Rightarrow> 'a option" where
  "search matchAt [] = matchAt []"
| "search matchAt (c # cs) =
     (case matchAt (c # cs) of Some r \<Rightarrow> Some r | None \<Rightarrow> search matchAt cs)"

text \<open>
  The pieces of a pattern, each applied at the start of a string and returning what it
  consumed and the rest: a literal, a literal in either case (flag \<open>i\<close>), a class repeated
  once or more (\<open>+\<close>, greedy), one character of a class in either case, and an optional
  piece (\<open>?\<close>). A class repeated zero or more times (\<open>*\<close>) is \<open>dropWhile\<close>.
\<close>

fun literal :: "string \<Rightarrow> string \<Rightarrow> string option" where
  "literal [] s = Some s"
| "literal (l # ls) [] = None"
| "literal (l # ls) (c # cs) = (if c = l then literal ls cs else None)"

fun literalCI :: "string \<Rightarrow> string \<Rightarrow> string option" where
  "literalCI [] s = Some s"
| "literalCI (l # ls) [] = None"
| "literalCI (l # ls) (c # cs) = (if toUpper c = toUpper l then literalCI ls cs else None)"

text \<open>\<open>s.includes(sub)\<close>: \<open>sub\<close> occurs at some position of \<open>s\<close>.\<close>

fun includesStr :: "string \<Rightarrow> string \<Rightarrow> bool" where
  "includesStr [] sub = (sub = [])"
| "includesStr (c # cs) sub = (if literal sub (c # cs) \<noteq> None then True else includesStr cs sub)"

definition many1 :: "(char \<Rightarrow> bool) \<Rightarrow> string \<Rightarrow> (string \<times> string) option" where
  "many1 P s = (if takeWhile P s = [] then None else Some (takeWhile P s, dropWhile P s))"

definition oneOfCI :: "string \<Rightarrow> string \<Rightarrow> (string \<times> string) option" where
  "oneOfCI cls s =
     (case s of
        [] \<Rightarrow> None
      | c # r \<Rightarrow> if toUpper c \<in> set cls then Some ([c], r) else None)"

definition optional :: "(string \<Rightarrow> (string \<times> string) option) \<Rightarrow> string \<Rightarrow> string \<times> string" where
  "optional piece s = (case piece s of None \<Rightarrow> ([], s) | Some x \<Rightarrow> x)"

text \<open>\<open>/Transferred:\s+(\d+)\s*\/\s*(\d+),\s*(\d+)%/\<close> at the start of \<open>s\<close>: the three groups.\<close>

definition transferredAt :: "string \<Rightarrow> (string \<times> string \<times> string) option" where
  "transferredAt s =
     (case literal ''Transferred:'' s of None \<Rightarrow> None | Some r0 \<Rightarrow>
      case many1 isSpace r0 of None \<Rightarrow> None | Some (ws, r1) \<Rightarrow>
      case many1 isDigit r1 of None \<Rightarrow> None | Some (n, r2) \<Rightarrow>
      case literal ''/'' (dropWhile isSpace r2) of None \<Rightarrow> None | Some r3 \<Rightarrow>
      case many1 isDigit (dropWhile isSpace r3) of None \<Rightarrow> None | Some (m, r4) \<Rightarrow>
      case literal '','' r4 of None \<Rightarrow> None | Some r5 \<Rightarrow>
      case many1 isDigit (dropWhile isSpace r5) of None \<Rightarrow> None | Some (p, r6) \<Rightarrow>
      case literal ''%'' r6 of None \<Rightarrow> None | Some r7 \<Rightarrow> Some (n, m, p))"

text \<open>
  \<open>/Transferred:\s+([\d.]+)\s*([KMGT]?i?B)/i\<close> at the start of \<open>s\<close>: the two groups. The
  flag \<open>i\<close> makes the letters match in either case.
\<close>

definition bytesAt :: "string \<Rightarrow> (string \<times> string) option" where
  "bytesAt s =
     (case literalCI ''Transferred:'' s of None \<Rightarrow> None | Some r0 \<Rightarrow>
      case many1 isSpace r0 of None \<Rightarrow> None | Some (ws, r1) \<Rightarrow>
      case many1 isDigitOrDot r1 of None \<Rightarrow> None | Some (num, r2) \<Rightarrow>
      case optional (oneOfCI ''KMGT'') (dropWhile isSpace r2) of (k, r3) \<Rightarrow>
      case optional (oneOfCI ''I'') r3 of (i, r4) \<Rightarrow>
      case oneOfCI ''B'' r4 of None \<Rightarrow> None | Some (b, r5) \<Rightarrow> Some (num, k @ i @ b))"

subsection \<open>parseRcloneOutput\<close>

text \<open>
  \<open>Partial<RcloneStats>\<close>: of its nineteen optional fields the three that the stage writes
  or reads.
\<close>

record RcloneStats =
  transfers :: "number option"
  totalTransfers :: "number option"
  bytes :: "number option"

definition noStats :: RcloneStats where
  "noStats = \<lparr> transfers = None, totalTransfers = None, bytes = None \<rparr>"

text \<open>
  \<open>JSON.parse\<close> is a library function and a parameter here: \<open>jsonParse line\<close> is the object
  it returns, read at the declared type, or \<open>None\<close> when it throws. The loop returns the
  parse of the first line that holds both markers and parses.
\<close>

definition hasMarkers :: "string \<Rightarrow> bool" where
  "hasMarkers line =
     (includesStr line ([CHR 0x22] @ ''transfers'' @ [CHR 0x22])
      \<and> includesStr line ([CHR 0x22] @ ''bytes'' @ [CHR 0x22]))"

fun jsonStatsLine :: "(string \<Rightarrow> RcloneStats option) \<Rightarrow> string list \<Rightarrow> RcloneStats option" where
  "jsonStatsLine jsonParse [] = None"
| "jsonStatsLine jsonParse (line # lines) =
     (if hasMarkers line then
        (case jsonParse line of
           Some jsonStats \<Rightarrow> Some jsonStats
         | None \<Rightarrow> jsonStatsLine jsonParse lines)
      else jsonStatsLine jsonParse lines)"

definition unitFactor :: "string \<Rightarrow> rat" where
  "unitFactor unit =
     (if includesStr unit ''K'' then 1024
      else if includesStr unit ''M'' then 1024 * 1024
      else if includesStr unit ''G'' then 1024 * 1024 * 1024
      else if includesStr unit ''T'' then 1024 * 1024 * 1024 * 1024
      else 1)"

definition textTransfers :: "string \<Rightarrow> RcloneStats \<Rightarrow> RcloneStats" where
  "textTransfers output stats =
     (case search transferredAt output of
        Some (n, m, p) \<Rightarrow>
          stats\<lparr> transfers := Some (Num (of_int (parseInt n))),
                 totalTransfers := Some (Num (of_int (parseInt m))) \<rparr>
      | None \<Rightarrow> stats)"

definition textBytes :: "string \<Rightarrow> RcloneStats \<Rightarrow> RcloneStats" where
  "textBytes output stats =
     (case search bytesAt output of
        Some (num, unit) \<Rightarrow>
          stats\<lparr> bytes :=
            Some (mathRound (timesNum (parseFloat num) (unitFactor (toUpperCase unit)))) \<rparr>
      | None \<Rightarrow> stats)"

definition parseRcloneOutput :: "(string \<Rightarrow> RcloneStats option) \<Rightarrow> string \<Rightarrow> RcloneStats" where
  "parseRcloneOutput jsonParse output =
     (case jsonStatsLine jsonParse (splitStr CHR 0x0A output) of
        Some jsonStats \<Rightarrow> jsonStats
      | None \<Rightarrow> textBytes output (textTransfers output noStats))"

subsection \<open>syncOciToGcs\<close>

record SyncResult =
  files_transferred :: rat
  bytes_transferred :: rat
  sync_duration_seconds :: int

text \<open>
  The outcome of one invocation of the external tool, and the environment of a run: the
  tool (its outcome for the arguments it is given), \<open>JSON.parse\<close>, and the two readings of
  \<open>Date.now()\<close>.
\<close>

record procResult =
  stdout :: string
  stderr :: string
  exitCode :: int

record syncEnv =
  rclone :: "string list \<Rightarrow> procResult"
  jsonParse :: "string \<Rightarrow> RcloneStats option"
  syncStart :: int
  syncEnd :: int

definition source :: "Config \<Rightarrow> string" where
  "source config = oci_remoteName config @ '':'' @ oci_tenancyOcid config @ ''/FOCUS Reports''"

definition destination :: "Config \<Rightarrow> string" where
  "destination config =
     gcs_remoteName config @ '':'' @ gcs_stagingBucket config @ ''/FOCUS-Reports''"

definition lsfArgs :: "Config \<Rightarrow> string list" where
  "lsfArgs config = [''lsf'', source config, ''--recursive'', ''--config'', ''rclone.conf'']"

definition syncArgs :: "Config \<Rightarrow> string list" where
  "syncArgs config =
     [''sync'', source config, destination config, ''--config'', ''rclone.conf'',
      ''--stats'', ''1s'', ''--stats-one-line'', ''--stats-log-level'', ''NOTICE'', ''-v'']"

definition syncDuration :: "syncEnv \<Rightarrow> int" where
  "syncDuration env = (syncEnd env - syncStart env + 500) div 1000"

text \<open>
  The stage returns the lines it logs at error level and either the message of the error
  it throws or its result.
\<close>

definition syncOciToGcs :: "syncEnv \<Rightarrow> Config \<Rightarrow> string list \<times> (string + SyncResult)" where
  "syncOciToGcs env config =
     (if job_dryRun config then
        (let proc = rclone env (lsfArgs config)
         in if exitCode proc \<noteq> 0 then
              ([''rclone lsf failed: '' @ stderr proc],
               Inl (''rclone lsf failed with exit code '' @ showInt (exitCode proc)))
            else
              ([], Inr \<lparr> files_transferred = 0, bytes_transferred = 0,
                         sync_duration_seconds = syncDuration env \<rparr>))
      else
        (let proc = rclone env (syncArgs config);
             combinedOutput = stdout proc @ [CHR 0x0A] @ stderr proc
         in if exitCode proc \<noteq> 0 then
              ([''rclone sync failed with exit code '' @ showInt (exitCode proc), stderr proc],
               Inl (''rclone sync failed with exit code '' @ showInt (exitCode proc)))
            else
              (let stats = parseRcloneOutput (jsonParse env) combinedOutput;
                   filesTransferred = orZero (transfers stats);
                   bytesTransferred = orZero (bytes stats)
               in ([], Inr \<lparr> files_transferred = filesTransferred,
                              bytes_transferred = bytesTransferred,
                              sync_duration_seconds = syncDuration env \<rparr>))))"

section \<open>Notions used to state the properties\<close>

text \<open>
  A listed file (its position in the listing and its name) is eligible when its name
  parses and, in incremental mode, its date is within the window at the moment it is
  examined.
\<close>

definition eligible :: "Config \<Rightarrow> env \<Rightarrow> nat \<times> string \<Rightarrow> bool" where
  "eligible config e f =
     (case parseFilePath (zone e) (snd f) of
        None \<Rightarrow> False
      | Some parsed \<Rightarrow>
          job_syncMode config = Full
          \<or> isWithinDateRange (zone e) (date parsed) (job_daysToSync config) (clock e (fst f)))"

text \<open>
  The key structure in the words of the specification:
  \<open>FOCUS-Reports/<4 digits>/<2 digits>/<2 digits>/<name>.csv.gz\<close>, matched in full, with a
  name of at least one character, none of them a line terminator.
\<close>

definition matchesStructure :: "string \<Rightarrow> bool" where
  "matchesStructure key =
     (\<exists>y m d name.
        key = ''FOCUS-Reports/'' @ y @ ''/'' @ m @ ''/'' @ d @ ''/'' @ name @ ''.csv.gz''
        \<and> length y = 4 \<and> list_all isDigit y
        \<and> length m = 2 \<and> list_all isDigit m
        \<and> length d = 2 \<and> list_all isDigit d
        \<and> name \<noteq> [] \<and> \<not> list_ex isLineTerminator name)"

text \<open>
  In the words of the specification: the current date as a day number, and the Date of
  the local midnight of a day number.
\<close>

definition today :: "localTime \<Rightarrow> int" where
  "today now = MakeDay (lt_year now) (lt_month now) (lt_date now)"

definition midnightOf :: "timeZone \<Rightarrow> int \<Rightarrow> int option" where
  "midnightOf z d = TimeClip (zone_UTC z (d * msPerDay))"

text \<open>
  The local time \<open>n\<close> days before a clock reading (same time of day). Such a local time
  is in range when its instant is a valid time value, and it keeps its day when the zone
  gives back the same local day for that instant (it does unless the local day was
  skipped in the zone).
\<close>

definition shifted :: "localTime \<Rightarrow> int \<Rightarrow> int" where
  "shifted now n = (today now - n) * msPerDay + lt_timeInDay now"

definition inRange :: "timeZone \<Rightarrow> int \<Rightarrow> bool" where
  "inRange z l = (abs (zone_UTC z l) \<le> maxTime)"

definition keepsDay :: "timeZone \<Rightarrow> int \<Rightarrow> bool" where
  "keepsDay z l = (zone_LocalTime z (zone_UTC z l) div msPerDay = l div msPerDay)"

text \<open>In a zone with ordered midnights, later days have later midnights.\<close>

definition orderedMidnights :: "timeZone \<Rightarrow> bool" where
  "orderedMidnights z =
     (\<forall>a b. zone_UTC z (a * msPerDay) \<le> zone_UTC z (b * msPerDay) \<longleftrightarrow> a \<le> b)"

text \<open>A clock reading is well formed when its time of day lies within one day.\<close>

definition wellFormedTime :: "localTime \<Rightarrow> bool" where
  "wellFormedTime now = (0 \<le> lt_timeInDay now \<and> lt_timeInDay now < msPerDay)"

text \<open>The names the stage lists in the staging bucket.\<close>

definition staged :: "Config \<Rightarrow> gcs \<Rightarrow> string list" where
  "staged config s = listObjects s (gcs_stagingBucket config) ''FOCUS-Reports/''"

text \<open>Whether the destination of a parsed file is present in the destination bucket.\<close>

definition destPresent :: "Config \<Rightarrow> gcs \<Rightarrow> ParsedFile \<Rightarrow> bool" where
  "destPresent config s parsed =
     (map_of (objects s (gcs_hiveBucket config)) (buildHivePath parsed) \<noteq> None)"

text \<open>
  What the copy loop leaves for the iteration \<open>ip\<close> (index and parsed file), by the fault
  planned for that iteration: without a fault the destination is present; a failed
  existence check is recorded with its message; a failing copy is recorded unless the
  destination was there already (then no copy is attempted).
\<close>

definition settled ::
  "Config \<Rightarrow> env \<Rightarrow> gcs \<Rightarrow> (string \<times> string) list \<Rightarrow> nat \<times> ParsedFile \<Rightarrow> bool" where
  "settled config e s errs ip =
     (case objectFault e (fst ip) of
        None \<Rightarrow> destPresent config s (snd ip)
      | Some (ExistsFails m) \<Rightarrow> (fullPath (snd ip), m) \<in> set errs
      | Some (CopyFails m) \<Rightarrow> destPresent config s (snd ip) \<or> (fullPath (snd ip), m) \<in> set errs)"

definition settledIn :: "Config \<Rightarrow> env \<Rightarrow> copyState \<Rightarrow> nat \<times> ParsedFile \<Rightarrow> bool" where
  "settledIn config e st ip = settled config e (store st) (errors st) ip"

subsection \<open>A concrete scenario\<close>

definition exConfig :: Config where
  "exConfig =
     \<lparr> oci_remoteName = ''oci'', oci_tenancyOcid = ''tenancy'', gcs_remoteName = ''gcs'',
       gcs_stagingBucket = ''staging'', gcs_hiveBucket = ''hive'', gcs_projectId = ''proj'',
       job_syncMode = Full, job_daysToSync = Some 7, job_dryRun = False \<rparr>"

text \<open>The clock shows 2024-06-15, 01:00 local time, during the whole run.\<close>

definition exNow :: localTime where
  "exNow = \<lparr> lt_year = 2024, lt_month = 5, lt_date = 15, lt_timeInDay = 3600000 \<rparr>"

text \<open>
  A zone that skipped a local day, as Pacific/Apia skipped 2011-12-30 (day number 15338):
  ten hours behind UTC before local midnight of that day, fourteen hours ahead after it. A
  local time on the skipped day is read with the offset before the change.
\<close>

definition skipZone :: timeZone where
  "skipZone =
     \<lparr> zone_UTC = (\<lambda>l. if l < 15339 * msPerDay then l + 36000000 else l - 50400000),
       zone_LocalTime =
         (\<lambda>u. if u < 15338 * msPerDay + 36000000 then u - 36000000 else u + 50400000) \<rparr>"

text \<open>The time zone UTC.\<close>

definition utcZone :: timeZone where
  "utcZone = \<lparr> zone_UTC = (\<lambda>t. t), zone_LocalTime = (\<lambda>t. t) \<rparr>"

definition exEnv :: env where
  "exEnv =
     \<lparr> zone = utcZone, clock = (\<lambda>_. exNow),
       startTime = 0, endTime = 1500,
       stageFault = (\<lambda>_. None), objectFault = (\<lambda>_. None) \<rparr>"

text \<open>A store whose only staged object has the key with month 13 and day 40.\<close>

definition exRolloverStore :: gcs where
  "exRolloverStore =
     \<lparr> buckets = [''staging'', ''hive''],
       objects = (\<lambda>_. [])(''staging'' := [(''FOCUS-Reports/2024/13/40/x.csv.gz'', ''X'')]),
       calls = [] \<rparr>"

text \<open>The same environment one minute later.\<close>

definition exLaterEnv :: env where
  "exLaterEnv = exEnv\<lparr> clock := (\<lambda>_. exNow\<lparr> lt_timeInDay := 3660000 \<rparr>) \<rparr>"

definition exStore :: gcs where
  "exStore =
     \<lparr> buckets = [''staging''],
       objects = (\<lambda>_. [])(''staging'' :=
         [(''FOCUS-Reports/2024/06/08/a.csv.gz'', ''A''),
          (''FOCUS-Reports/readme.txt'', ''R''),
          (''FOCUS-Reports/2024/06/07/b.csv.gz'', ''B'')]),
       calls = [] \<rparr>"

text \<open>
  Ten eligible objects, dated 2024-06-01 to 2024-06-10, both buckets present and the
  destination empty; in \<open>exFaultEnv\<close> the copy of object number 3 (index 2) fails.
\<close>

definition exStore10 :: gcs where
  "exStore10 =
     \<lparr> buckets = [''staging'', ''hive''],
       objects = (\<lambda>_. [])(''staging'' :=
         map (\<lambda>d. (''FOCUS-Reports/2024/06/'' @ d @ ''/f.csv.gz'', ''content '' @ d))
           [''01'', ''02'', ''03'', ''04'', ''05'', ''06'', ''07'', ''08'', ''09'', ''10'']),
       calls = [] \<rparr>"

definition exFaultEnv :: env where
  "exFaultEnv = exEnv\<lparr> objectFault := (\<lambda>_. None)(2 := Some (CopyFails ''copy failed'')) \<rparr>"

text \<open>
  For the Mirror Stage: a \<open>JSON.parse\<close> that always throws; one that parses a single line,
  an object with \<open>transfers\<close> = 5 and no \<open>bytes\<close> field (the marker \<open>"bytes"\<close> occurs in
  it as a string value); and a tool with a given output and exit code.
\<close>

definition noJson :: "string \<Rightarrow> RcloneStats option" where
  "noJson line = None"

definition exJsonLine :: string where
  "exJsonLine =
     ''{'' @ [CHR 0x22] @ ''transfers'' @ [CHR 0x22] @ '':5,'' @ [CHR 0x22] @ ''note''
       @ [CHR 0x22] @ '':'' @ [CHR 0x22] @ ''bytes'' @ [CHR 0x22] @ ''}''"

definition exJson :: "string \<Rightarrow> RcloneStats option" where
  "exJson line =
     (if line = exJsonLine
      then Some \<lparr> transfers = Some (Num 5), totalTransfers = None, bytes = None \<rparr>
      else None)"

definition exSyncEnv :: "string \<Rightarrow> string \<Rightarrow> int \<Rightarrow> syncEnv" where
  "exSyncEnv out err code =
     \<lparr> rclone = (\<lambda>_. \<lparr> stdout = out, stderr = err, exitCode = code \<rparr>),
       jsonParse = exJson, syncStart = 0, syncEnd = 1500 \<rparr>"

section \<open>Properties of the Partition Stage\<close>

subsection \<open>Scanning and copying\<close>

lemma scanFile_parsed:
  "parsedFiles (scanFile config e st f)
     = parsedFiles st @ (if eligible config e f then [the (parseFilePath (zone e) (snd f))] else [])"
  by (cases "job_syncMode config") (simp_all add: scanFile_def eligible_def split: option.splits)

lemma scan_fold:
  "parsedFiles (foldl (scanFile config e) st xs)
     = parsedFiles st @ map (\<lambda>f. the (parseFilePath (zone e) (snd f))) (filter (eligible config e) xs)"
  by (induction xs arbitrary: st) (simp_all add: scanFile_parsed)

lemma scanFiles_parsed:
  "parsedFiles (scanFiles config e files)
     = map (\<lambda>f. the (parseFilePath (zone e) (snd f))) (filter (eligible config e) (enumerate 0 files))"
  by (simp add: scanFiles_def scan_fold)

lemma copyOne_counters:
  "filesCopied (copyOne config e st ip) + filesSkipped (copyOne config e st ip)
     + filesErrored (copyOne config e st ip)
   = Suc (filesCopied st + filesSkipped st + filesErrored st)"
  by (simp add: copyOne_def catchError_def Let_def split: sum.splits)

lemma copy_fold_counters:
  "filesCopied (foldl (copyOne config e) st xs) + filesSkipped (foldl (copyOne config e) st xs)
     + filesErrored (foldl (copyOne config e) st xs)
   = filesCopied st + filesSkipped st + filesErrored st + length xs"
  by (induction xs arbitrary: st) (simp_all add: copyOne_counters)

lemma copyFiles_counters:
  "filesCopied (copyFiles config e s ps) + filesSkipped (copyFiles config e s ps)
     + filesErrored (copyFiles config e s ps) = length ps"
  by (simp add: copyFiles_def copy_fold_counters)

lemma copyOne_one_counter:
  "(let st' = copyOne config e st ip in
      (filesCopied st' = filesCopied st + 1 \<and> filesSkipped st' = filesSkipped st
         \<and> filesErrored st' = filesErrored st)
    \<or> (filesCopied st' = filesCopied st \<and> filesSkipped st' = filesSkipped st + 1
         \<and> filesErrored st' = filesErrored st)
    \<or> (filesCopied st' = filesCopied st \<and> filesSkipped st' = filesSkipped st
         \<and> filesErrored st' = filesErrored st + 1))"
  by (simp add: copyOne_def catchError_def Let_def split: sum.splits)

subsection \<open>The shape of a run\<close>

text \<open>
  A live run that returns a result is the copy loop over the scanned listing, started in
  the store \<open>s2\<close> that the two bucket checks leave.
\<close>

lemma live_result:
  assumes "\<not> job_dryRun config"
      and "snd (reorganizeToHive e config s) = Inr (r, errs)"
  shows "\<exists>s2. fst (reorganizeToHive e config s)
               = store (copyFiles config e s2 (parsedFiles (scanFiles config e (staged config s2))))
      \<and> r = \<lparr> files_processed = length (parsedFiles (scanFiles config e (staged config s2))),
               files_copied = filesCopied (copyFiles config e s2 (parsedFiles (scanFiles config e (staged config s2)))),
               files_skipped = filesSkipped (copyFiles config e s2 (parsedFiles (scanFiles config e (staged config s2)))),
               files_errored = filesErrored (copyFiles config e s2 (parsedFiles (scanFiles config e (staged config s2)))),
               duration_seconds = durationSeconds e \<rparr>
      \<and> errs = errors (copyFiles config e s2 (parsedFiles (scanFiles config e (staged config s2))))"
  using assms
  by (auto simp: reorganizeToHive_def listAndCopy_def getFiles_def staged_def Let_def
           split: sum.splits option.splits prod.splits)

lemma listAndCopy_dry_store:
  "job_dryRun config \<Longrightarrow> fst (listAndCopy e config s) = s"
  by (simp add: listAndCopy_def Let_def split: sum.splits)

lemma listAndCopy_dry_result:
  "job_dryRun config \<Longrightarrow> snd (listAndCopy e config s) = Inr (r, errs) \<Longrightarrow>
     files_copied r = 0 \<and> files_skipped r = 0 \<and> files_errored r = 0 \<and> errs = []
     \<and> files_processed r = length (filter (eligible config e) (enumerate 0 (staged config s)))"
  by (auto simp: listAndCopy_def getFiles_def staged_def scanFiles_parsed Let_def
           split: sum.splits option.splits)

subsection \<open>Counters of a live run\<close>

text \<open>
  Claim C10. Every iteration of the copy loop adds one to exactly one of the three
  counters \<open>filesCopied\<close>, \<open>filesSkipped\<close>, \<open>filesErrored\<close> and leaves the other two as
  they are; hence the result of a live run satisfies
  \<open>files_copied + files_skipped + files_errored = files_processed\<close>.
\<close>

theorem live_counters_add_up:
  "(let st' = copyOne config e st ip in
      (filesCopied st' = filesCopied st + 1 \<and> filesSkipped st' = filesSkipped st
         \<and> filesErrored st' = filesErrored st)
    \<or> (filesCopied st' = filesCopied st \<and> filesSkipped st' = filesSkipped st + 1
         \<and> filesErrored st' = filesErrored st)
    \<or> (filesCopied st' = filesCopied st \<and> filesSkipped st' = filesSkipped st
         \<and> filesErrored st' = filesErrored st + 1))
   \<and> (\<not> job_dryRun config \<longrightarrow> snd (reorganizeToHive e config s) = Inr (r, errs) \<longrightarrow>
        files_copied r + files_skipped r + files_errored r = files_processed r)"
proof -
  have "files_copied r + files_skipped r + files_errored r = files_processed r"
    if "\<not> job_dryRun config" "snd (reorganizeToHive e config s) = Inr (r, errs)"
  proof -
    from live_result[OF that] obtain s2 where
      "r = \<lparr> files_processed = length (parsedFiles (scanFiles config e (staged config s2))),
               files_copied = filesCopied (copyFiles config e s2 (parsedFiles (scanFiles config e (staged config s2)))),
               files_skipped = filesSkipped (copyFiles config e s2 (parsedFiles (scanFiles config e (staged config s2)))),
               files_errored = filesErrored (copyFiles config e s2 (parsedFiles (scanFiles config e (staged config s2)))),
               duration_seconds = durationSeconds e \<rparr>"
      by blast
    then show ?thesis by (simp add: copyFiles_counters)
  qed
  then show ?thesis using copyOne_one_counter[of config e st ip] by blast
qed

text \<open>
  A live run over the example store in which the copy of the first eligible object fails:
  one object copied, none skipped, one errored, two processed.
\<close>

theorem live_counters_add_up_witness:
  "\<not> job_dryRun exConfig
   \<and> snd (reorganizeToHive (exEnv\<lparr> objectFault := (\<lambda>_. None)(0 := Some (CopyFails ''boom'')) \<rparr>)
            exConfig exStore)
     = Inr (\<lparr> files_processed = 2, files_copied = 1, files_skipped = 0, files_errored = 1,
              duration_seconds = 2 \<rparr>, [(''FOCUS-Reports/2024/06/08/a.csv.gz'', ''boom'')])
   \<and> (1::nat) + 0 + 1 = 2"
proof -
  have live: "\<not> job_dryRun exConfig"
    by (simp add: exConfig_def)
  have run: "snd (reorganizeToHive (exEnv\<lparr> objectFault := (\<lambda>_. None)(0 := Some (CopyFails ''boom'')) \<rparr>)
                    exConfig exStore)
     = Inr (\<lparr> files_processed = 2, files_copied = 1, files_skipped = 0, files_errored = 1,
              duration_seconds = 2 \<rparr>, [(''FOCUS-Reports/2024/06/08/a.csv.gz'', ''boom'')])"
    by code_simp
  from live run
    live_counters_add_up[where config = exConfig and s = exStore
      and e = "exEnv\<lparr> objectFault := (\<lambda>_. None)(0 := Some (CopyFails ''boom'')) \<rparr>"
      and r = "\<lparr> files_processed = 2, files_copied = 1, files_skipped = 0, files_errored = 1,
                 duration_seconds = 2 \<rparr>"
      and errs = "[(''FOCUS-Reports/2024/06/08/a.csv.gz'', ''boom'')]"]
  show ?thesis by simp
qed

subsection \<open>Dry run\<close>

lemma dry_run_store: "job_dryRun config \<Longrightarrow> fst (reorganizeToHive e config s) = s"
  by (simp add: reorganizeToHive_def listAndCopy_dry_store split: sum.splits)

lemma dry_run_result:
  assumes "job_dryRun config" and res: "snd (reorganizeToHive e config s) = Inr (r, errs)"
  shows "files_copied r = 0 \<and> files_skipped r = 0 \<and> files_errored r = 0 \<and> errs = []
          \<and> files_processed r =
              (if gcs_stagingBucket config \<in> set (buckets s)
               then length (filter (eligible config e) (enumerate 0 (staged config s)))
               else 0)"
proof (cases "gcs_stagingBucket config \<in> set (buckets s)")
  case True
  with assms have "snd (listAndCopy e config s) = Inr (r, errs)"
    by (auto simp: reorganizeToHive_def checkBucketExists_def bucketExists_def
             split: sum.splits option.splits)
  from listAndCopy_dry_result[OF assms(1) this] True show ?thesis by simp
next
  case False
  with assms show ?thesis
    by (auto simp: reorganizeToHive_def checkBucketExists_def bucketExists_def
             split: sum.splits option.splits)
qed

text \<open>
  Claim C3. In dry-run mode the stage serves no mutating request: the store after the run
  is the store before it (same buckets, same objects, no bucket creation and no copy among
  the served calls), whether the run returns a result or fails. A returned result has
  \<open>files_copied = files_skipped = files_errored = 0\<close>, no per-object error, and
  \<open>files_processed\<close> is the number of listed staging objects that parse and, in incremental
  mode, are within the date window (none are listed when the staging bucket is missing).
\<close>

theorem dry_run_no_side_effects:
  assumes "job_dryRun config"
  shows "fst (reorganizeToHive e config s) = s
     \<and> (snd (reorganizeToHive e config s) = Inr (r, errs) \<longrightarrow>
          files_copied r = 0 \<and> files_skipped r = 0 \<and> files_errored r = 0 \<and> errs = []
          \<and> files_processed r =
              (if gcs_stagingBucket config \<in> set (buckets s)
               then length (filter (eligible config e) (enumerate 0 (staged config s)))
               else 0))"
  using dry_run_store[OF assms, of e s] dry_run_result[OF assms, of e s r errs] by blast

text \<open>
  A dry run in incremental mode over the example store (clock at 2024-06-15, seven days):
  of the three listed objects one does not parse and one is dated 2024-06-07, so one is
  processed; the destination bucket, which does not exist, is not created.
\<close>

theorem dry_run_no_side_effects_witness:
  "job_dryRun (exConfig\<lparr> job_dryRun := True, job_syncMode := Incremental \<rparr>)
   \<and> fst (reorganizeToHive exEnv (exConfig\<lparr> job_dryRun := True, job_syncMode := Incremental \<rparr>)
            exStore) = exStore
   \<and> snd (reorganizeToHive exEnv (exConfig\<lparr> job_dryRun := True, job_syncMode := Incremental \<rparr>)
            exStore)
     = Inr (\<lparr> files_processed = 1, files_copied = 0, files_skipped = 0, files_errored = 0,
              duration_seconds = 2 \<rparr>, [])
   \<and> length (filter (eligible (exConfig\<lparr> job_dryRun := True, job_syncMode := Incremental \<rparr>) exEnv)
        (enumerate 0 (staged (exConfig\<lparr> job_dryRun := True, job_syncMode := Incremental \<rparr>) exStore)))
     = 1"
proof -
  have dry: "job_dryRun (exConfig\<lparr> job_dryRun := True, job_syncMode := Incremental \<rparr>)"
    by simp
  have run: "snd (reorganizeToHive exEnv (exConfig\<lparr> job_dryRun := True, job_syncMode := Incremental \<rparr>)
            exStore)
     = Inr (\<lparr> files_processed = 1, files_copied = 0, files_skipped = 0, files_errored = 0,
              duration_seconds = 2 \<rparr>, [])"
    by code_simp
  have stg: "gcs_stagingBucket (exConfig\<lparr> job_dryRun := True, job_syncMode := Incremental \<rparr>)
               \<in> set (buckets exStore)"
    by (simp add: exConfig_def exStore_def)
  from run stg dry
    dry_run_no_side_effects[OF dry, where e = exEnv and s = exStore
      and r = "\<lparr> files_processed = 1, files_copied = 0, files_skipped = 0, files_errored = 0,
                 duration_seconds = 2 \<rparr>"
      and errs = "[]"]
  show ?thesis by simp
qed

subsection \<open>Parsing keys\<close>

lemma regex_complete:
  assumes "length y = 4" "list_all isDigit y" "length m = 2" "list_all isDigit m"
      "length d = 2" "list_all isDigit d" "name \<noteq> []" "\<not> list_ex isLineTerminator name"
  shows "FILE_PATH_REGEX (''FOCUS-Reports/'' @ y @ ''/'' @ m @ ''/'' @ d @ ''/'' @ name @ ''.csv.gz'')
           = Some (y, m, d, name @ ''.csv.gz'')"
  using assms by (simp add: FILE_PATH_REGEX_def isLineTerminator_def Let_def del: drop_drop)

lemma drop_split: "drop k xs = take n (drop k xs) @ drop (n + k) xs"
  by (metis append_take_drop_id drop_drop)

lemma regex_sound:
  assumes "FILE_PATH_REGEX path = Some (y, m, d, f)"
  shows "path = ''FOCUS-Reports/'' @ y @ ''/'' @ m @ ''/'' @ d @ ''/'' @ f
     \<and> length y = 4 \<and> list_all isDigit y \<and> length m = 2 \<and> list_all isDigit m
     \<and> length d = 2 \<and> list_all isDigit d
     \<and> 7 < length f \<and> f = take (length f - 7) f @ ''.csv.gz'' \<and> \<not> list_ex isLineTerminator f"
proof -
  from assms have c:
    "take 14 path = ''FOCUS-Reports/''"
    "y = take 4 (drop 14 path)" "m = take 2 (drop 19 path)" "d = take 2 (drop 22 path)"
    "f = drop 25 path"
    "length y = 4" "list_all isDigit y" "take 1 (drop 18 path) = ''/''"
    "length m = 2" "list_all isDigit m" "take 1 (drop 21 path) = ''/''"
    "length d = 2" "list_all isDigit d" "take 1 (drop 24 path) = ''/''"
    "7 < length f" "drop (length f - 7) f = ''.csv.gz''" "\<not> list_ex isLineTerminator f"
    by (auto simp add: FILE_PATH_REGEX_def Let_def split: if_splits)
  have "path = take 14 path @ drop 14 path"
    by simp
  also have "drop 14 path = take 4 (drop 14 path) @ drop 18 path"
    using drop_split[of 14 path 4] by simp
  also have "drop 18 path = take 1 (drop 18 path) @ drop 19 path"
    using drop_split[of 18 path 1] by simp
  also have "drop 19 path = take 2 (drop 19 path) @ drop 21 path"
    using drop_split[of 19 path 2] by simp
  also have "drop 21 path = take 1 (drop 21 path) @ drop 22 path"
    using drop_split[of 21 path 1] by simp
  also have "drop 22 path = take 2 (drop 22 path) @ drop 24 path"
    using drop_split[of 22 path 2] by simp
  also have "drop 24 path = take 1 (drop 24 path) @ drop 25 path"
    using drop_split[of 24 path 1] by simp
  finally have "path = ''FOCUS-Reports/'' @ y @ ''/'' @ m @ ''/'' @ d @ ''/'' @ f"
    using c by simp
  moreover have "f = take (length f - 7) f @ ''.csv.gz''"
    using c(16) by (metis append_take_drop_id)
  ultimately show ?thesis using c by simp
qed

lemma parse_iff: "parseFilePath z key \<noteq> None \<longleftrightarrow> matchesStructure key"
proof
  assume "parseFilePath z key \<noteq> None"
  then obtain y m d f where r: "FILE_PATH_REGEX key = Some (y, m, d, f)"
    by (auto simp: parseFilePath_def split: option.splits)
  from regex_sound[OF r] have
    k: "key = ''FOCUS-Reports/'' @ y @ ''/'' @ m @ ''/'' @ d @ ''/'' @ f"
    and l: "length y = 4" "list_all isDigit y" "length m = 2" "list_all isDigit m"
      "length d = 2" "list_all isDigit d"
    and f: "7 < length f" "f = take (length f - 7) f @ ''.csv.gz''" "\<not> list_ex isLineTerminator f"
    by simp_all
  define name where "name = take (length f - 7) f"
  have "name \<noteq> []" using f(1) by (auto simp: name_def)
  moreover have "\<not> list_ex isLineTerminator name"
    using f(3) by (auto simp: name_def list_ex_iff dest: in_set_takeD)
  moreover have "key = ''FOCUS-Reports/'' @ y @ ''/'' @ m @ ''/'' @ d @ ''/'' @ name @ ''.csv.gz''"
    using k f(2) by (simp add: name_def)
  ultimately show "matchesStructure key"
    unfolding matchesStructure_def using l by blast
next
  assume "matchesStructure key"
  then obtain y m d name where
    "key = ''FOCUS-Reports/'' @ y @ ''/'' @ m @ ''/'' @ d @ ''/'' @ name @ ''.csv.gz''"
    "length y = 4" "list_all isDigit y" "length m = 2" "list_all isDigit m"
    "length d = 2" "list_all isDigit d" "name \<noteq> []" "\<not> list_ex isLineTerminator name"
    unfolding matchesStructure_def by blast
  then have "FILE_PATH_REGEX key = Some (y, m, d, name @ ''.csv.gz'')"
    using regex_complete by blast
  then show "parseFilePath z key \<noteq> None"
    by (simp add: parseFilePath_def)
qed

lemma MakeDay_month_carry: "MakeDay y (m + 12) d = MakeDay (y + 1) m d"
  by (simp add: MakeDay_def Let_def ac_simps)

lemma MakeDay_day_carry: "MakeDay y m (d + k) = MakeDay y m d + k"
  by (simp add: MakeDay_def Let_def)

lemma div_day: "0 < c \<Longrightarrow> 0 \<le> t \<Longrightarrow> t < c \<Longrightarrow> (x * c + t) div c = (x::int)"
  by simp

subsection \<open>The date window\<close>

lemma filter_enumerate_snd:
  "map snd (filter (\<lambda>f. P (snd f)) (enumerate n xs)) = filter P xs"
proof -
  have "filter P xs = filter P (map snd (enumerate n xs))"
    by simp
  also have "\<dots> = map snd (filter (P \<circ> snd) (enumerate n xs))"
    by (rule filter_map)
  finally show ?thesis by (simp add: comp_def)
qed

lemma eligible_full:
  "job_syncMode config = Full \<Longrightarrow> eligible config e f \<longleftrightarrow> parseFilePath (zone e) (snd f) \<noteq> None"
  by (auto simp: eligible_def split: option.splits)

lemma eligible_window:
  "eligible config e f \<longleftrightarrow>
     parseFilePath (zone e) (snd f) \<noteq> None
     \<and> (job_syncMode config = Incremental \<longrightarrow>
          dateGe (date (the (parseFilePath (zone e) (snd f))))
            (cutoffDate (zone e) (clock e (fst f)) (job_daysToSync config)))"
  by (cases "job_syncMode config")
     (auto simp: eligible_def isWithinDateRange_def split: option.splits)

text \<open>\<open>setDate(getDate() - n)\<close> is the local time \<open>n\<close> days before the reading.\<close>

lemma setDate_shifted:
  "setDate z now (Some (lt_date now - n)) = TimeClip (zone_UTC z (shifted now n))"
  by (simp add: setDate_def shifted_def today_def MakeDay_def Let_def algebra_simps)

lemma shifted_day:
  assumes "wellFormedTime now"
  shows "shifted now n div msPerDay = today now - n"
  unfolding shifted_def
  using assms by (intro div_day) (simp_all add: wellFormedTime_def msPerDay_def)

lemma cutoffDate_NaN: "cutoffDate z now None = None"
  by (simp add: cutoffDate_def setDate_def setHoursZero_def)

lemma cutoffDate_out_of_range:
  "\<not> inRange z (shifted now n) \<Longrightarrow> cutoffDate z now (Some n) = None"
  by (simp add: cutoffDate_def setDate_shifted TimeClip_def inRange_def setHoursZero_def)

lemma cutoffDate_midnight:
  assumes "wellFormedTime now" and "inRange z (shifted now n)" and "keepsDay z (shifted now n)"
  shows "cutoffDate z now (Some n) = midnightOf z (today now - n)"
proof -
  have "setDate z now (Some (lt_date now - n)) = Some (zone_UTC z (shifted now n))"
    using assms(2) by (simp add: setDate_shifted TimeClip_def inRange_def)
  moreover have "zone_LocalTime z (zone_UTC z (shifted now n)) div msPerDay = today now - n"
    using assms(3) shifted_day[OF assms(1)] by (simp add: keepsDay_def)
  ultimately show ?thesis
    by (simp add: cutoffDate_def setHoursZero_def midnightOf_def)
qed

lemma dateGe_iff: "dateGe a b \<longleftrightarrow> (\<exists>x y. a = Some x \<and> b = Some y \<and> y \<le> x)"
  by (auto simp: dateGe_def split: option.splits)

lemma newDate_midnight:
  "newDate z y m d = midnightOf z (MakeDay (if 0 \<le> y \<and> y \<le> 99 then 1900 + y else y) m d)"
  by (simp add: newDate_def midnightOf_def Let_def)

lemma window_by_days:
  assumes "wellFormedTime now" and "inRange z (shifted now n)" and "keepsDay z (shifted now n)"
      and "orderedMidnights z"
      and "midnightOf z dd \<noteq> None" and "midnightOf z (today now - n) \<noteq> None"
  shows "isWithinDateRange z (midnightOf z dd) (Some n) now \<longleftrightarrow> today now - n \<le> dd"
proof -
  from assms(5,6) have
    "midnightOf z dd = Some (zone_UTC z (dd * msPerDay))"
    "midnightOf z (today now - n) = Some (zone_UTC z ((today now - n) * msPerDay))"
    by (auto simp: midnightOf_def TimeClip_def split: if_splits)
  then show ?thesis
    using assms(4) cutoffDate_midnight[OF assms(1,2,3)]
    by (simp add: isWithinDateRange_def dateGe_def orderedMidnights_def)
qed

text \<open>
  Claim C4, as amended. The file's date is the Date of the local midnight of the day its
  year, month and day name, and "on or after" compares two Dates, which is false as soon
  as one of them is invalid. With a well-formed clock reading and a day count \<open>n\<close> for
  which the local time \<open>n\<close> days before now is in the range of Date and keeps its day, the
  cutoff is the Date of the local midnight of the current day minus \<open>n\<close> days, and
  \<open>isWithinDateRange\<close> holds exactly when the file's date is on or after it: the bound is
  closed and there is no upper bound; where midnights are ordered like their days this
  is "the file's day is not before the current day minus \<open>n\<close>". When that local time is
  out of range, or the day count is \<open>NaN\<close>, the cutoff is an Invalid Date and nothing is
  within the range. In incremental mode the loop retains exactly the listed keys that
  parse and whose date is on or after the cutoff at the moment the key is examined; in
  full mode it retains every key that parses.
\<close>

theorem incremental_window:
  assumes "wellFormedTime now"
  shows "(inRange z (shifted now n) \<and> keepsDay z (shifted now n) \<longrightarrow>
            cutoffDate z now (Some n) = midnightOf z (today now - n)
            \<and> (isWithinDateRange z fileDate (Some n) now
                 \<longleftrightarrow> dateGe fileDate (midnightOf z (today now - n))))
    \<and> (inRange z (shifted now n) \<and> keepsDay z (shifted now n) \<and> orderedMidnights z
         \<and> midnightOf z dd \<noteq> None \<and> midnightOf z (today now - n) \<noteq> None \<longrightarrow>
           (isWithinDateRange z (midnightOf z dd) (Some n) now \<longleftrightarrow> today now - n \<le> dd))
    \<and> (\<not> inRange z (shifted now n) \<longrightarrow>
           cutoffDate z now (Some n) = None \<and> \<not> isWithinDateRange z fileDate (Some n) now)
    \<and> cutoffDate z now None = None \<and> \<not> isWithinDateRange z fileDate None now
    \<and> (dateGe a b \<longleftrightarrow> (\<exists>x y. a = Some x \<and> b = Some y \<and> y \<le> x))
    \<and> (parseFilePath z key = Some p \<longrightarrow>
         date p = newDate z (parseInt (year p)) (parseInt (month p) - 1) (parseInt (day p)))
    \<and> newDate z y m d = midnightOf z (MakeDay (if 0 \<le> y \<and> y \<le> 99 then 1900 + y else y) m d)
    \<and> parsedFiles (scanFiles config e files)
        = map (\<lambda>f. the (parseFilePath (zone e) (snd f)))
            (filter (\<lambda>f. parseFilePath (zone e) (snd f) \<noteq> None
                       \<and> (job_syncMode config = Incremental \<longrightarrow>
                            dateGe (date (the (parseFilePath (zone e) (snd f))))
                              (cutoffDate (zone e) (clock e (fst f)) (job_daysToSync config))))
               (enumerate 0 files))
    \<and> (job_syncMode config = Full \<longrightarrow>
         parsedFiles (scanFiles config e files)
           = map (\<lambda>k. the (parseFilePath (zone e) k))
               (filter (\<lambda>k. parseFilePath (zone e) k \<noteq> None) files))"
proof -
  have a: "inRange z (shifted now n) \<and> keepsDay z (shifted now n) \<longrightarrow>
            cutoffDate z now (Some n) = midnightOf z (today now - n)
            \<and> (isWithinDateRange z fileDate (Some n) now
                 \<longleftrightarrow> dateGe fileDate (midnightOf z (today now - n)))"
    using cutoffDate_midnight[OF assms, of z n] by (simp add: isWithinDateRange_def)
  have b: "inRange z (shifted now n) \<and> keepsDay z (shifted now n) \<and> orderedMidnights z
         \<and> midnightOf z dd \<noteq> None \<and> midnightOf z (today now - n) \<noteq> None \<longrightarrow>
           (isWithinDateRange z (midnightOf z dd) (Some n) now \<longleftrightarrow> today now - n \<le> dd)"
    using window_by_days[OF assms, of z n dd] by blast
  have c: "\<not> inRange z (shifted now n) \<longrightarrow>
           cutoffDate z now (Some n) = None \<and> \<not> isWithinDateRange z fileDate (Some n) now"
    using cutoffDate_out_of_range[of z now n]
    by (auto simp: isWithinDateRange_def dateGe_def split: option.splits)
  have d: "cutoffDate z now None = None \<and> \<not> isWithinDateRange z fileDate None now"
    by (auto simp: cutoffDate_NaN isWithinDateRange_def dateGe_def split: option.splits)
  have g: "parseFilePath z key = Some p \<longrightarrow>
         date p = newDate z (parseInt (year p)) (parseInt (month p) - 1) (parseInt (day p))"
    by (auto simp: parseFilePath_def split: option.splits)
  have "eligible config e = (\<lambda>f. parseFilePath (zone e) (snd f) \<noteq> None
                       \<and> (job_syncMode config = Incremental \<longrightarrow>
                            dateGe (date (the (parseFilePath (zone e) (snd f))))
                              (cutoffDate (zone e) (clock e (fst f)) (job_daysToSync config))))"
    by (auto simp: fun_eq_iff eligible_window)
  then have h: "parsedFiles (scanFiles config e files)
        = map (\<lambda>f. the (parseFilePath (zone e) (snd f)))
            (filter (\<lambda>f. parseFilePath (zone e) (snd f) \<noteq> None
                       \<and> (job_syncMode config = Incremental \<longrightarrow>
                            dateGe (date (the (parseFilePath (zone e) (snd f))))
                              (cutoffDate (zone e) (clock e (fst f)) (job_daysToSync config))))
               (enumerate 0 files))"
    by (simp add: scanFiles_parsed)
  have f: "parsedFiles (scanFiles config e files)
           = map (\<lambda>k. the (parseFilePath (zone e) k))
               (filter (\<lambda>k. parseFilePath (zone e) k \<noteq> None) files)"
    if "job_syncMode config = Full"
  proof -
    have "eligible config e = (\<lambda>f. parseFilePath (zone e) (snd f) \<noteq> None)"
      using that by (auto simp: fun_eq_iff eligible_full)
    then have "parsedFiles (scanFiles config e files)
        = map (\<lambda>k. the (parseFilePath (zone e) k))
            (map snd (filter (\<lambda>f. parseFilePath (zone e) (snd f) \<noteq> None) (enumerate 0 files)))"
      by (simp add: scanFiles_parsed comp_def)
    then show ?thesis
      by (simp only: filter_enumerate_snd[of "\<lambda>k. parseFilePath (zone e) k \<noteq> None" 0 files])
  qed
  from a b c d g h f dateGe_iff[of a b] newDate_midnight[of z y m d] show ?thesis
    by blast
qed

lemma utc_regular:
  "keepsDay utcZone l" "orderedMidnights utcZone"
  by (simp_all add: keepsDay_def orderedMidnights_def utcZone_def msPerDay_def)

text \<open>
  In UTC, with seven days and the clock at 2024-06-15, the cutoff is the midnight of
  2024-06-08 (day number 19882): a key dated 2024-06-08 is retained, one dated 2024-06-07
  is not, one dated 2030-01-01 is; full mode retains both parsed keys of the listing.
\<close>

theorem incremental_window_witness:
  "wellFormedTime exNow
   \<and> inRange utcZone (shifted exNow 7) \<and> keepsDay utcZone (shifted exNow 7)
   \<and> orderedMidnights utcZone
   \<and> today exNow - 7 = 19882 \<and> midnightOf utcZone 19882 = newDate utcZone 2024 5 8
   \<and> cutoffDate utcZone exNow (Some 7) = newDate utcZone 2024 5 8
   \<and> isWithinDateRange utcZone (newDate utcZone 2024 5 8) (Some 7) exNow
   \<and> \<not> isWithinDateRange utcZone (newDate utcZone 2024 5 7) (Some 7) exNow
   \<and> isWithinDateRange utcZone (newDate utcZone 2030 0 1) (Some 7) exNow
   \<and> map fullPath (parsedFiles (scanFiles (exConfig\<lparr> job_syncMode := Incremental \<rparr>) exEnv
        [''FOCUS-Reports/2024/06/08/a.csv.gz'', ''FOCUS-Reports/readme.txt'',
         ''FOCUS-Reports/2024/06/07/b.csv.gz'']))
      = [''FOCUS-Reports/2024/06/08/a.csv.gz'']
   \<and> map fullPath (parsedFiles (scanFiles exConfig exEnv
        [''FOCUS-Reports/2024/06/08/a.csv.gz'', ''FOCUS-Reports/readme.txt'',
         ''FOCUS-Reports/2024/06/07/b.csv.gz'']))
      = [''FOCUS-Reports/2024/06/08/a.csv.gz'', ''FOCUS-Reports/2024/06/07/b.csv.gz'']"
proof -
  have w: "wellFormedTime exNow"
    by (simp add: wellFormedTime_def exNow_def msPerDay_def)
  have r: "inRange utcZone (shifted exNow 7)"
    by code_simp
  have t: "today exNow - 7 = 19882" "midnightOf utcZone 19882 = newDate utcZone 2024 5 8"
    by code_simp+
  have g: "dateGe (newDate utcZone 2024 5 8) (newDate utcZone 2024 5 8)"
    "\<not> dateGe (newDate utcZone 2024 5 7) (newDate utcZone 2024 5 8)"
    "dateGe (newDate utcZone 2030 0 1) (newDate utcZone 2024 5 8)"
    by code_simp+
  have s1: "map fullPath (parsedFiles (scanFiles (exConfig\<lparr> job_syncMode := Incremental \<rparr>) exEnv
        [''FOCUS-Reports/2024/06/08/a.csv.gz'', ''FOCUS-Reports/readme.txt'',
         ''FOCUS-Reports/2024/06/07/b.csv.gz'']))
      = [''FOCUS-Reports/2024/06/08/a.csv.gz'']"
    by code_simp
  have s2: "map fullPath (parsedFiles (scanFiles exConfig exEnv
        [''FOCUS-Reports/2024/06/08/a.csv.gz'', ''FOCUS-Reports/readme.txt'',
         ''FOCUS-Reports/2024/06/07/b.csv.gz'']))
      = [''FOCUS-Reports/2024/06/08/a.csv.gz'', ''FOCUS-Reports/2024/06/07/b.csv.gz'']"
    by code_simp
  have hyp: "inRange utcZone (shifted exNow 7) \<and> keepsDay utcZone (shifted exNow 7)"
    using r utc_regular(1) by blast
  have th: "cutoffDate utcZone exNow (Some 7) = newDate utcZone 2024 5 8
     \<and> (isWithinDateRange utcZone fd (Some 7) exNow
          \<longleftrightarrow> dateGe fd (newDate utcZone 2024 5 8))" for fd
  proof -
    from incremental_window[OF w, where z = utcZone and n = 7 and fileDate = fd] hyp
    have "cutoffDate utcZone exNow (Some 7) = midnightOf utcZone (today exNow - 7)
     \<and> (isWithinDateRange utcZone fd (Some 7) exNow
          \<longleftrightarrow> dateGe fd (midnightOf utcZone (today exNow - 7)))"
      by blast
    then show ?thesis unfolding t .
  qed
  from th have c: "cutoffDate utcZone exNow (Some 7) = newDate utcZone 2024 5 8"
    by blast
  from th[of "newDate utcZone 2024 5 8"] g(1)
  have i1: "isWithinDateRange utcZone (newDate utcZone 2024 5 8) (Some 7) exNow"
    by blast
  from th[of "newDate utcZone 2024 5 7"] g(2)
  have i2: "\<not> isWithinDateRange utcZone (newDate utcZone 2024 5 7) (Some 7) exNow"
    by blast
  from th[of "newDate utcZone 2030 0 1"] g(3)
  have i3: "isWithinDateRange utcZone (newDate utcZone 2030 0 1) (Some 7) exNow"
    by blast
  from w r utc_regular(1)[of "shifted exNow 7"] utc_regular(2) t c i1 i2 i3 s1 s2
  show ?thesis by blast
qed

text \<open>
  The claim as stated fails for a day count beyond the range of Date: with
  \<open>daysToSync = 200000000\<close> the day "now minus daysToSync" is far before the file's day
  2024-06-08, yet the cutoff is an Invalid Date and the file is not retained. With a
  day count \<open>NaN\<close> nothing is retained either.
\<close>

theorem incremental_window_counterexample:
  "\<not> isWithinDateRange utcZone (newDate utcZone 2024 5 8) (Some 200000000) exNow
   \<and> newDate utcZone 2024 5 8 = Some (MakeDay 2024 5 8 * msPerDay)
   \<and> (today exNow - 200000000) * msPerDay \<le> MakeDay 2024 5 8 * msPerDay
   \<and> parsedFiles (scanFiles
        (exConfig\<lparr> job_syncMode := Incremental, job_daysToSync := Some 200000000 \<rparr>) exEnv
        [''FOCUS-Reports/2024/06/08/a.csv.gz'']) = []
   \<and> parsedFiles (scanFiles
        (exConfig\<lparr> job_syncMode := Incremental, job_daysToSync := None \<rparr>) exEnv
        [''FOCUS-Reports/2024/06/08/a.csv.gz'']) = []"
  by code_simp

text \<open>
  Where a local day was skipped the Date of its midnight is the next instant that
  exists: in \<open>skipZone\<close>, with seven days and the clock at 2012-01-07, a key dated
  2011-12-30 has the Date of the cutoff (the midnight of 2011-12-31) and is within the
  range.
\<close>

lemma skipped_day_within_range:
  "newDate skipZone 2011 11 30 = newDate skipZone 2011 11 31
   \<and> cutoffDate skipZone \<lparr> lt_year = 2012, lt_month = 0, lt_date = 7, lt_timeInDay = 3600000 \<rparr>
        (Some 7) = newDate skipZone 2011 11 31
   \<and> isWithinDateRange skipZone (newDate skipZone 2011 11 30) (Some 7)
        \<lparr> lt_year = 2012, lt_month = 0, lt_date = 7, lt_timeInDay = 3600000 \<rparr>"
  by code_simp

subsection \<open>One iteration of the copy loop\<close>

lemma copyOne_cases:
  obtains (err) msg where "copyOne config e st ip = catchError st (snd ip) msg"
      "objectFault e (fst ip) \<noteq> None"
  | (skip) "destPresent config (store st) (snd ip)"
      "copyOne config e st ip = st\<lparr> filesSkipped := filesSkipped st + 1 \<rparr>"
  | (missing)
      "map_of (objects (store st) (gcs_stagingBucket config)) (fullPath (snd ip)) = None"
      "copyOne config e st ip = catchError st (snd ip) ''No such object''"
  | (copy) c where "\<not> destPresent config (store st) (snd ip)"
      "map_of (objects (store st) (gcs_stagingBucket config)) (fullPath (snd ip)) = Some c"
      "copyOne config e st ip =
         st\<lparr> store := (store st)\<lparr> objects := (objects (store st))(gcs_hiveBucket config :=
                    AList.update (buildHivePath (snd ip)) c (objects (store st) (gcs_hiveBucket config))),
                  calls := calls (store st) @ [CopyObject (gcs_stagingBucket config) (fullPath (snd ip))
                    (gcs_hiveBucket config) (buildHivePath (snd ip))] \<rparr>,
             filesCopied := filesCopied st + 1 \<rparr>"
proof (cases "fileExists e (fst ip) (store st) (gcs_hiveBucket config) (buildHivePath (snd ip))")
  case (Inl msg)
  then have "copyOne config e st ip = catchError st (snd ip) msg"
    by (simp add: copyOne_def Let_def)
  moreover from Inl have "objectFault e (fst ip) \<noteq> None"
    by (auto simp: fileExists_def split: option.splits objectFault.splits)
  ultimately show ?thesis by (rule err)
next
  case (Inr ex)
  show ?thesis
  proof (cases ex)
    case True
    with Inr have "destPresent config (store st) (snd ip)"
      by (auto simp: fileExists_def destPresent_def split: option.splits objectFault.splits)
    moreover from Inr True have "copyOne config e st ip = st\<lparr> filesSkipped := filesSkipped st + 1 \<rparr>"
      by (simp add: copyOne_def Let_def)
    ultimately show ?thesis by (rule skip)
  next
    case False
    with Inr have np: "\<not> destPresent config (store st) (snd ip)"
      by (auto simp: fileExists_def destPresent_def split: option.splits objectFault.splits)
    show ?thesis
    proof (cases "copyFile e (fst ip) (store st) (gcs_stagingBucket config) (fullPath (snd ip))
                       (gcs_hiveBucket config) (buildHivePath (snd ip))")
      case (Inl msg)
      with Inr False have c1: "copyOne config e st ip = catchError st (snd ip) msg"
        by (simp add: copyOne_def Let_def)
      show ?thesis
      proof (cases "objectFault e (fst ip)")
        case None
        with Inl have "map_of (objects (store st) (gcs_stagingBucket config)) (fullPath (snd ip)) = None"
          "msg = ''No such object''"
          by (auto simp: copyFile_def split: option.splits)
        with c1 show ?thesis using missing by blast
      next
        case (Some a)
        with c1 show ?thesis using err by blast
      qed
    next
      case (Inr s')
      then obtain c where
        c: "map_of (objects (store st) (gcs_stagingBucket config)) (fullPath (snd ip)) = Some c"
        and s': "s' = (store st)\<lparr> objects := (objects (store st))(gcs_hiveBucket config :=
                    AList.update (buildHivePath (snd ip)) c (objects (store st) (gcs_hiveBucket config))),
                  calls := calls (store st) @ [CopyObject (gcs_stagingBucket config) (fullPath (snd ip))
                    (gcs_hiveBucket config) (buildHivePath (snd ip))] \<rparr>"
        by (auto simp: copyFile_def split: option.splits objectFault.splits)
      from Inr \<open>fileExists e (fst ip) (store st) (gcs_hiveBucket config) (buildHivePath (snd ip)) = Inr ex\<close> False
      have "copyOne config e st ip = st\<lparr> store := s', filesCopied := filesCopied st + 1 \<rparr>"
        by (simp add: copyOne_def Let_def)
      with np c s' show ?thesis using copy by blast
    qed
  qed
qed

lemma hivePath_not_staged: "take 14 (buildHivePath p) \<noteq> ''FOCUS-Reports/''"
  by (simp add: buildHivePath_def)

lemma listObjects_update:
  "take (length prefix) k \<noteq> prefix \<Longrightarrow>
   listObjects (s\<lparr> objects := (objects s)(db := AList.update k c (objects s db)), calls := cs \<rparr>) b prefix
     = listObjects s b prefix"
  by (simp add: listObjects_def update_keys)

lemma copyOne_buckets: "buckets (store (copyOne config e st ip)) = buckets (store st)"
  by (cases rule: copyOne_cases[of config e st ip]) (simp_all add: catchError_def)

lemma copyOne_keeps:
  assumes "map_of (objects (store st) b) n = Some c"
  shows "map_of (objects (store (copyOne config e st ip)) b) n = Some c"
proof (cases rule: copyOne_cases[of config e st ip])
  case (copy c')
  with assms show ?thesis
    by (auto simp: destPresent_def update_conv')
qed (simp_all add: catchError_def assms)

lemma copyOne_staged:
  "listObjects (store (copyOne config e st ip)) b ''FOCUS-Reports/''
     = listObjects (store st) b ''FOCUS-Reports/''"
proof (cases rule: copyOne_cases[of config e st ip])
  case (copy c')
  have "take (length ''FOCUS-Reports/'') (buildHivePath (snd ip)) \<noteq> ''FOCUS-Reports/''"
    by (simp add: buildHivePath_def)
  from listObjects_update[OF this] copy(3) show ?thesis
    by simp
qed (simp_all add: catchError_def)

lemma copyOne_calls:
  "\<exists>new. calls (store (copyOne config e st ip)) = calls (store st) @ new
     \<and> set new \<subseteq> {CopyObject (gcs_stagingBucket config) (fullPath (snd ip))
                        (gcs_hiveBucket config) (buildHivePath (snd ip))}"
  by (cases rule: copyOne_cases[of config e st ip]) (simp_all add: catchError_def)

lemma copyOne_errors:
  "\<exists>new. errors (copyOne config e st ip) = errors st @ new
     \<and> filesErrored (copyOne config e st ip) = filesErrored st + length new
     \<and> fst ` set new \<subseteq> {fullPath (snd ip)}"
  by (cases rule: copyOne_cases[of config e st ip]) (simp_all add: catchError_def)

lemma copyOne_no_error_present:
  assumes "filesErrored (copyOne config e st ip) = filesErrored st"
  shows "destPresent config (store (copyOne config e st ip)) (snd ip)"
  using assms
  by (cases rule: copyOne_cases[of config e st ip])
     (simp_all add: catchError_def destPresent_def update_conv')

lemma copyOne_present_skips:
  assumes "destPresent config (store st) (snd ip)"
      and "filesErrored (copyOne config e st ip) = filesErrored st"
  shows "copyOne config e st ip = st\<lparr> filesSkipped := filesSkipped st + 1 \<rparr>"
  using assms
  by (cases rule: copyOne_cases[of config e st ip]) (simp_all add: catchError_def)

lemma destPresent_keeps:
  "destPresent config (store st) q \<Longrightarrow> destPresent config (store (copyOne config e st ip)) q"
  unfolding destPresent_def using copyOne_keeps by fastforce

text \<open>The same facts for the whole loop, from any state.\<close>

lemma fold_buckets: "buckets (store (foldl (copyOne config e) st xs)) = buckets (store st)"
  by (induction xs arbitrary: st) (simp_all add: copyOne_buckets)

lemma fold_keeps:
  "map_of (objects (store st) b) n = Some c \<Longrightarrow>
   map_of (objects (store (foldl (copyOne config e) st xs)) b) n = Some c"
  by (induction xs arbitrary: st) (simp_all add: copyOne_keeps)

lemma fold_staged:
  "listObjects (store (foldl (copyOne config e) st xs)) b ''FOCUS-Reports/''
     = listObjects (store st) b ''FOCUS-Reports/''"
  by (induction xs arbitrary: st) (simp_all add: copyOne_staged)

lemma fold_present_keeps:
  "destPresent config (store st) q \<Longrightarrow>
   destPresent config (store (foldl (copyOne config e) st xs)) q"
  by (induction xs arbitrary: st) (simp_all add: destPresent_keeps)

lemma fold_calls:
  "\<exists>new. calls (store (foldl (copyOne config e) st xs)) = calls (store st) @ new
     \<and> set new \<subseteq> (\<lambda>ip. CopyObject (gcs_stagingBucket config) (fullPath (snd ip))
                        (gcs_hiveBucket config) (buildHivePath (snd ip))) ` set xs"
proof (induction xs arbitrary: st)
  case Nil
  show ?case by simp
next
  case (Cons x xs)
  from copyOne_calls[of config e st x] obtain n1 where
    n1: "calls (store (copyOne config e st x)) = calls (store st) @ n1"
      "set n1 \<subseteq> {CopyObject (gcs_stagingBucket config) (fullPath (snd x))
                        (gcs_hiveBucket config) (buildHivePath (snd x))}"
    by blast
  from Cons.IH[of "copyOne config e st x"] obtain n2 where
    n2: "calls (store (foldl (copyOne config e) (copyOne config e st x) xs))
           = calls (store (copyOne config e st x)) @ n2"
      "set n2 \<subseteq> (\<lambda>ip. CopyObject (gcs_stagingBucket config) (fullPath (snd ip))
                        (gcs_hiveBucket config) (buildHivePath (snd ip))) ` set xs"
    by blast
  have "calls (store (foldl (copyOne config e) st (x # xs))) = calls (store st) @ (n1 @ n2)"
    using n1(1) n2(1) by simp
  moreover have "set (n1 @ n2) \<subseteq> (\<lambda>ip. CopyObject (gcs_stagingBucket config) (fullPath (snd ip))
                        (gcs_hiveBucket config) (buildHivePath (snd ip))) ` set (x # xs)"
    using n1(2) n2(2) by auto
  ultimately show ?case by blast
qed

lemma fold_errors:
  "\<exists>new. errors (foldl (copyOne config e) st xs) = errors st @ new
     \<and> filesErrored (foldl (copyOne config e) st xs) = filesErrored st + length new
     \<and> fst ` set new \<subseteq> (\<lambda>ip. fullPath (snd ip)) ` set xs"
proof (induction xs arbitrary: st)
  case Nil
  show ?case by simp
next
  case (Cons x xs)
  from copyOne_errors[of config e st x] obtain n1 where
    n1: "errors (copyOne config e st x) = errors st @ n1"
      "filesErrored (copyOne config e st x) = filesErrored st + length n1"
      "fst ` set n1 \<subseteq> {fullPath (snd x)}"
    by blast
  from Cons.IH[of "copyOne config e st x"] obtain n2 where
    n2: "errors (foldl (copyOne config e) (copyOne config e st x) xs)
           = errors (copyOne config e st x) @ n2"
      "filesErrored (foldl (copyOne config e) (copyOne config e st x) xs)
           = filesErrored (copyOne config e st x) + length n2"
      "fst ` set n2 \<subseteq> (\<lambda>ip. fullPath (snd ip)) ` set xs"
    by blast
  have "errors (foldl (copyOne config e) st (x # xs)) = errors st @ (n1 @ n2)"
    using n1(1) n2(1) by simp
  moreover have "filesErrored (foldl (copyOne config e) st (x # xs))
                   = filesErrored st + length (n1 @ n2)"
    using n1(2) n2(2) by simp
  moreover have "fst ` set (n1 @ n2) \<subseteq> (\<lambda>ip. fullPath (snd ip)) ` set (x # xs)"
    using n1(3) n2(3) by auto
  ultimately show ?case by blast
qed

lemma fold_errored_mono: "filesErrored st \<le> filesErrored (foldl (copyOne config e) st xs)"
  using fold_errors[of config e st xs] by auto

lemma fold_no_error_present:
  assumes "filesErrored (foldl (copyOne config e) st xs) = filesErrored st"
      and "ip \<in> set xs"
  shows "destPresent config (store (foldl (copyOne config e) st xs)) (snd ip)"
  using assms
proof (induction xs arbitrary: st)
  case Nil
  then show ?case by simp
next
  case (Cons x xs)
  have m1: "filesErrored st \<le> filesErrored (copyOne config e st x)"
    using copyOne_errors[of config e st x] by auto
  have m2: "filesErrored (copyOne config e st x)
              \<le> filesErrored (foldl (copyOne config e) (copyOne config e st x) xs)"
    by (rule fold_errored_mono)
  from Cons.prems(1) m1 m2 have
    e1: "filesErrored (copyOne config e st x) = filesErrored st" and
    e2: "filesErrored (foldl (copyOne config e) (copyOne config e st x) xs)
           = filesErrored (copyOne config e st x)"
    by simp_all
  show ?case
  proof (cases "ip = x")
    case True
    from copyOne_no_error_present[OF e1] have "destPresent config (store (copyOne config e st x)) (snd x)" .
    from fold_present_keeps[OF this] True show ?thesis by simp
  next
    case False
    with Cons.prems(2) have "ip \<in> set xs" by simp
    from Cons.IH[OF e2 this] show ?thesis by simp
  qed
qed

lemma fold_all_present_skips:
  assumes "\<forall>ip\<in>set xs. destPresent config (store st) (snd ip)"
      and "filesErrored (foldl (copyOne config e) st xs) = filesErrored st"
  shows "foldl (copyOne config e) st xs = st\<lparr> filesSkipped := filesSkipped st + length xs \<rparr>"
  using assms
proof (induction xs arbitrary: st)
  case Nil
  then show ?case by simp
next
  case (Cons x xs)
  have m1: "filesErrored st \<le> filesErrored (copyOne config e st x)"
    using copyOne_errors[of config e st x] by auto
  have m2: "filesErrored (copyOne config e st x)
              \<le> filesErrored (foldl (copyOne config e) (copyOne config e st x) xs)"
    by (rule fold_errored_mono)
  from Cons.prems(2) m1 m2 have
    e1: "filesErrored (copyOne config e st x) = filesErrored st" and
    e2: "filesErrored (foldl (copyOne config e) (copyOne config e st x) xs)
           = filesErrored (copyOne config e st x)"
    by simp_all
  from Cons.prems(1) have "destPresent config (store st) (snd x)" by simp
  from copyOne_present_skips[OF this e1]
  have step: "copyOne config e st x = st\<lparr> filesSkipped := filesSkipped st + 1 \<rparr>" .
  have "\<forall>ip\<in>set xs. destPresent config (store (copyOne config e st x)) (snd ip)"
    using Cons.prems(1) by (simp add: step)
  from Cons.IH[OF this e2] show ?case
    by (simp add: step)
qed

subsection \<open>The bucket checks and the shape of a live run\<close>

lemma ensure_shape:
  assumes "ensureBucketExists e s b loc = Inr (s', x)"
  shows "objects s' = objects s"
    and "b \<in> set (buckets s')"
    and "set (buckets s) \<subseteq> set (buckets s')"
    and "set (calls s') \<subseteq> set (calls s) \<union> {CreateBucket b loc}"
    and "b \<in> set (buckets s) \<Longrightarrow> s' = s"
  using assms
  by (auto simp: ensureBucketExists_def bucketExists_def createBucket_def
           split: sum.splits option.splits if_splits)

lemma staged_objects: "objects s' = objects s \<Longrightarrow> staged config s' = staged config s"
  by (simp add: staged_def listObjects_def)

lemma live_shape:
  assumes "\<not> job_dryRun config"
      and "snd (reorganizeToHive e config s) = Inr (r, errs)"
  obtains s2 where
    "objects s2 = objects s"
    "gcs_stagingBucket config \<in> set (buckets s2)"
    "gcs_hiveBucket config \<in> set (buckets s2)"
    "gcs_stagingBucket config \<in> set (buckets s) \<and> gcs_hiveBucket config \<in> set (buckets s)
       \<longrightarrow> s2 = s"
    "fst (reorganizeToHive e config s)
       = store (copyFiles config e s2 (parsedFiles (scanFiles config e (staged config s))))"
    "r = \<lparr> files_processed = length (parsedFiles (scanFiles config e (staged config s))),
           files_copied = filesCopied (copyFiles config e s2 (parsedFiles (scanFiles config e (staged config s)))),
           files_skipped = filesSkipped (copyFiles config e s2 (parsedFiles (scanFiles config e (staged config s)))),
           files_errored = filesErrored (copyFiles config e s2 (parsedFiles (scanFiles config e (staged config s)))),
           duration_seconds = durationSeconds e \<rparr>"
    "errs = errors (copyFiles config e s2 (parsedFiles (scanFiles config e (staged config s))))"
proof -
  from assms obtain s1 x1 where
    e1: "ensureBucketExists e s (gcs_stagingBucket config) bucketLocation = Inr (s1, x1)"
    by (auto simp: reorganizeToHive_def split: sum.splits)
  with assms obtain s2 x2 where
    e2: "ensureBucketExists e s1 (gcs_hiveBucket config) bucketLocation = Inr (s2, x2)"
    by (auto simp: reorganizeToHive_def split: sum.splits)
  from assms(1) e1 e2 have run: "reorganizeToHive e config s = listAndCopy e config s2"
    by (simp add: reorganizeToHive_def)
  have o: "objects s2 = objects s"
    using ensure_shape(1)[OF e1] ensure_shape(1)[OF e2] by simp
  have st: "staged config s2 = staged config s"
    using o by (rule staged_objects)
  have b1: "gcs_stagingBucket config \<in> set (buckets s2)"
    using ensure_shape(2)[OF e1] ensure_shape(3)[OF e2] by blast
  have b2: "gcs_hiveBucket config \<in> set (buckets s2)"
    using ensure_shape(2)[OF e2] .
  have same: "gcs_stagingBucket config \<in> set (buckets s) \<and> gcs_hiveBucket config \<in> set (buckets s)
       \<longrightarrow> s2 = s"
    using ensure_shape(5)[OF e1] ensure_shape(5)[OF e2] by auto
  from assms(2) run have lc: "snd (listAndCopy e config s2) = Inr (r, errs)"
    by simp
  then obtain files where gf: "getFiles e s2 (gcs_stagingBucket config) ''FOCUS-Reports/'' = Inr files"
    by (auto simp: listAndCopy_def split: sum.splits)
  then have files: "files = staged config s"
    using st by (auto simp: getFiles_def staged_def split: option.splits)
  from lc gf assms(1) files have
    "r = \<lparr> files_processed = length (parsedFiles (scanFiles config e (staged config s))),
           files_copied = filesCopied (copyFiles config e s2 (parsedFiles (scanFiles config e (staged config s)))),
           files_skipped = filesSkipped (copyFiles config e s2 (parsedFiles (scanFiles config e (staged config s)))),
           files_errored = filesErrored (copyFiles config e s2 (parsedFiles (scanFiles config e (staged config s)))),
           duration_seconds = durationSeconds e \<rparr>"
    "errs = errors (copyFiles config e s2 (parsedFiles (scanFiles config e (staged config s))))"
    by (simp_all add: listAndCopy_def Let_def)
  moreover from run gf assms(1) files have
    "fst (reorganizeToHive e config s)
       = store (copyFiles config e s2 (parsedFiles (scanFiles config e (staged config s))))"
    by (simp add: listAndCopy_def Let_def)
  ultimately show ?thesis
    using that o b1 b2 same by blast
qed

lemma rerun_main:
  assumes live: "\<not> job_dryRun config"
    and run1: "snd (reorganizeToHive e1 config s0) = Inr (r1, errs1)"
    and ok1: "files_errored r1 = 0"
    and run2: "snd (reorganizeToHive e2 config (fst (reorganizeToHive e1 config s0))) = Inr (r2, errs2)"
    and ok2: "files_errored r2 = 0"
    and win: "parsedFiles (scanFiles config e2 (staged config s0))
                = parsedFiles (scanFiles config e1 (staged config s0))"
  shows "files_copied r2 = 0 \<and> files_skipped r2 = files_processed r1
     \<and> fst (reorganizeToHive e2 config (fst (reorganizeToHive e1 config s0)))
         = fst (reorganizeToHive e1 config s0)"
proof -
  define s1 where "s1 = fst (reorganizeToHive e1 config s0)"
  define ps where "ps = parsedFiles (scanFiles config e1 (staged config s0))"
  define init :: "gcs \<Rightarrow> copyState" where
    "init = (\<lambda>s. \<lparr> store = s, filesCopied = 0, filesSkipped = 0, filesErrored = 0, errors = [] \<rparr>)"
  from live_shape[OF live run1] obtain sa where
    a: "objects sa = objects s0"
      "gcs_stagingBucket config \<in> set (buckets sa)"
      "gcs_hiveBucket config \<in> set (buckets sa)"
      "s1 = store (copyFiles config e1 sa ps)"
      "files_processed r1 = length ps"
      "files_errored r1 = filesErrored (copyFiles config e1 sa ps)"
    unfolding s1_def ps_def by (metis ReorganizeResult.select_convs(1,4))
  have l1: "copyFiles config e1 sa ps = foldl (copyOne config e1) (init sa) (enumerate 0 ps)"
    by (simp add: copyFiles_def init_def)
  have noerr1: "filesErrored (foldl (copyOne config e1) (init sa) (enumerate 0 ps))
                  = filesErrored (init sa)"
    using a(6) ok1 l1 by (simp add: init_def)
  have present: "\<forall>ip\<in>set (enumerate 0 ps). destPresent config s1 (snd ip)"
    using fold_no_error_present[OF noerr1] a(4) l1 by simp
  have bk: "buckets s1 = buckets sa"
    using a(4) l1 by (simp add: fold_buckets init_def)
  have stg: "staged config s1 = staged config s0"
  proof -
    have "staged config s1 = staged config sa"
      using a(4) l1 by (simp add: staged_def fold_staged init_def)
    then show ?thesis using staged_objects[OF a(1)] by simp
  qed
  from run2 have run2': "snd (reorganizeToHive e2 config s1) = Inr (r2, errs2)"
    by (simp add: s1_def)
  from live_shape[OF live run2'] obtain sb where
    b: "gcs_stagingBucket config \<in> set (buckets s1) \<and> gcs_hiveBucket config \<in> set (buckets s1)
          \<longrightarrow> sb = s1"
      "fst (reorganizeToHive e2 config s1)
         = store (copyFiles config e2 sb (parsedFiles (scanFiles config e2 (staged config s1))))"
      "files_copied r2 = filesCopied (copyFiles config e2 sb (parsedFiles (scanFiles config e2 (staged config s1))))"
      "files_skipped r2 = filesSkipped (copyFiles config e2 sb (parsedFiles (scanFiles config e2 (staged config s1))))"
      "files_errored r2 = filesErrored (copyFiles config e2 sb (parsedFiles (scanFiles config e2 (staged config s1))))"
    by (metis ReorganizeResult.select_convs(2,3,4))
  have sb: "sb = s1"
    using b(1) bk a(2,3) by simp
  have ps2: "parsedFiles (scanFiles config e2 (staged config s1)) = ps"
    using win stg by (simp add: ps_def)
  have l2: "copyFiles config e2 s1 ps = foldl (copyOne config e2) (init s1) (enumerate 0 ps)"
    by (simp add: copyFiles_def init_def)
  have noerr2: "filesErrored (foldl (copyOne config e2) (init s1) (enumerate 0 ps))
                  = filesErrored (init s1)"
    using b(5) ok2 l2 sb ps2 by (simp add: init_def)
  have present2: "\<forall>ip\<in>set (enumerate 0 ps). destPresent config (store (init s1)) (snd ip)"
    using present by (simp add: init_def)
  from fold_all_present_skips[OF present2 noerr2]
  have "copyFiles config e2 s1 ps = (init s1)\<lparr> filesSkipped := length ps \<rparr>"
    using l2 by (simp add: init_def)
  then show ?thesis
    using b(2,3,4) sb ps2 a(5) by (simp add: init_def s1_def)
qed

subsection \<open>What a run does to the store\<close>

lemma listAndCopy_store:
  "fst (listAndCopy e config s) = s
   \<or> (\<not> job_dryRun config
       \<and> fst (listAndCopy e config s)
           = store (copyFiles config e s (parsedFiles (scanFiles config e (staged config s)))))"
  by (auto simp: listAndCopy_def getFiles_def staged_def Let_def split: sum.splits option.splits)

lemma run_store:
  "\<exists>s2. objects s2 = objects s
     \<and> set (calls s2) \<subseteq> set (calls s) \<union> range (\<lambda>b. CreateBucket b bucketLocation)
     \<and> (fst (reorganizeToHive e config s) = s2
         \<or> (\<not> job_dryRun config
             \<and> fst (reorganizeToHive e config s)
                 = store (copyFiles config e s2 (parsedFiles (scanFiles config e (staged config s))))))"
proof (cases "job_dryRun config")
  case True
  then show ?thesis using dry_run_store[of config e s] by auto
next
  case live: False
  show ?thesis
  proof (cases "ensureBucketExists e s (gcs_stagingBucket config) bucketLocation")
    case (Inl msg)
    with live have "fst (reorganizeToHive e config s) = s"
      by (simp add: reorganizeToHive_def)
    then show ?thesis by auto
  next
    case (Inr sx1)
    obtain s1 x1 where sx1: "sx1 = (s1, x1)" by (cases sx1)
    note e1 = Inr[unfolded sx1]
    show ?thesis
    proof (cases "ensureBucketExists e s1 (gcs_hiveBucket config) bucketLocation")
      case (Inl msg)
      with live e1 have "fst (reorganizeToHive e config s) = s1"
        by (simp add: reorganizeToHive_def)
      moreover have "objects s1 = objects s"
        using ensure_shape(1)[OF e1] .
      moreover have "set (calls s1) \<subseteq> set (calls s) \<union> range (\<lambda>b. CreateBucket b bucketLocation)"
        using ensure_shape(4)[OF e1] by auto
      ultimately show ?thesis by blast
    next
      case (Inr sx2)
      obtain s2 x2 where sx2: "sx2 = (s2, x2)" by (cases sx2)
      note e2 = Inr[unfolded sx2]
      from live e1 e2 have run: "reorganizeToHive e config s = listAndCopy e config s2"
        by (simp add: reorganizeToHive_def)
      have o: "objects s2 = objects s"
        using ensure_shape(1)[OF e1] ensure_shape(1)[OF e2] by simp
      have c: "set (calls s2) \<subseteq> set (calls s) \<union> range (\<lambda>b. CreateBucket b bucketLocation)"
        using ensure_shape(4)[OF e1] ensure_shape(4)[OF e2] by auto
      from listAndCopy_store[of e config s2] run staged_objects[OF o, of config]
      have "fst (reorganizeToHive e config s) = s2
         \<or> (\<not> job_dryRun config
             \<and> fst (reorganizeToHive e config s)
                 = store (copyFiles config e s2 (parsedFiles (scanFiles config e (staged config s)))))"
        by simp
      with o c show ?thesis by blast
    qed
  qed
qed

lemma run_keeps:
  assumes "map_of (objects s b) n = Some c"
  shows "map_of (objects (fst (reorganizeToHive e config s)) b) n = Some c"
proof -
  from run_store[of s e config] obtain s2 where
    o: "objects s2 = objects s" and
    f: "fst (reorganizeToHive e config s) = s2
         \<or> fst (reorganizeToHive e config s)
                 = store (copyFiles config e s2 (parsedFiles (scanFiles config e (staged config s))))"
    by blast
  from assms o have k: "map_of (objects s2 b) n = Some c" by simp
  from f show ?thesis
  proof
    assume "fst (reorganizeToHive e config s) = s2"
    with k show ?thesis by simp
  next
    assume "fst (reorganizeToHive e config s)
                 = store (copyFiles config e s2 (parsedFiles (scanFiles config e (staged config s))))"
    then show ?thesis
      using fold_keeps[of "\<lparr> store = s2, filesCopied = 0, filesSkipped = 0, filesErrored = 0, errors = [] \<rparr>" b n c config e]
        k by (simp add: copyFiles_def)
  qed
qed

lemma snd_enumerate_set: "snd ` set (enumerate n xs) = set xs"
  by (metis list.set_map map_snd_enumerate)

lemma run_calls:
  assumes "c \<in> set (calls (fst (reorganizeToHive e config s)))"
  shows "c \<in> set (calls s) \<or> (\<exists>b. c = CreateBucket b bucketLocation)
     \<or> (\<exists>p\<in>set (parsedFiles (scanFiles config e (staged config s))).
           c = CopyObject (gcs_stagingBucket config) (fullPath p)
                 (gcs_hiveBucket config) (buildHivePath p))"
proof -
  define ps where "ps = parsedFiles (scanFiles config e (staged config s))"
  from run_store[of s e config] obtain s2 where
    cs: "set (calls s2) \<subseteq> set (calls s) \<union> range (\<lambda>b. CreateBucket b bucketLocation)" and
    f: "fst (reorganizeToHive e config s) = s2
         \<or> fst (reorganizeToHive e config s) = store (copyFiles config e s2 ps)"
    unfolding ps_def by blast
  from f show ?thesis
  proof
    assume "fst (reorganizeToHive e config s) = s2"
    with assms cs show ?thesis by auto
  next
    assume r: "fst (reorganizeToHive e config s) = store (copyFiles config e s2 ps)"
    from fold_calls[of config e "\<lparr> store = s2, filesCopied = 0, filesSkipped = 0, filesErrored = 0, errors = [] \<rparr>" "enumerate 0 ps"]
    obtain new where
      n: "calls (store (copyFiles config e s2 ps)) = calls s2 @ new"
         "set new \<subseteq> (\<lambda>ip. CopyObject (gcs_stagingBucket config) (fullPath (snd ip))
                        (gcs_hiveBucket config) (buildHivePath (snd ip))) ` set (enumerate 0 ps)"
      by (auto simp: copyFiles_def)
    from assms r n(1) have "c \<in> set (calls s2) \<or> c \<in> set new" by simp
    then show ?thesis
    proof
      assume "c \<in> set (calls s2)"
      with cs show ?thesis by auto
    next
      assume "c \<in> set new"
      with n(2) obtain ip where "ip \<in> set (enumerate 0 ps)"
        "c = CopyObject (gcs_stagingBucket config) (fullPath (snd ip))
                        (gcs_hiveBucket config) (buildHivePath (snd ip))"
        by auto
      moreover then have "snd ip \<in> set ps"
        using snd_enumerate_set[of 0 ps] by blast
      ultimately show ?thesis unfolding ps_def by blast
    qed
  qed
qed

lemma parse_fullPath: "parseFilePath z k = Some p \<Longrightarrow> fullPath p = k"
  by (auto simp: parseFilePath_def split: option.splits)

lemma parsed_origin:
  assumes "p \<in> set (parsedFiles (scanFiles config e files))"
  shows "fullPath p \<in> set files \<and> parseFilePath (zone e) (fullPath p) = Some p"
proof -
  from assms obtain f where f: "f \<in> set (enumerate 0 files)" "eligible config e f"
    "p = the (parseFilePath (zone e) (snd f))"
    by (auto simp: scanFiles_parsed)
  from f(2) obtain q where q: "parseFilePath (zone e) (snd f) = Some q"
    by (auto simp: eligible_def split: option.splits)
  with f(3) have pq: "p = q" by simp
  from f(1) have "snd f \<in> set files"
    using snd_enumerate_set[of 0 files] by blast
  with q pq parse_fullPath[OF q] show ?thesis by simp
qed

subsection \<open>Per-object errors\<close>

lemma copyOne_existsFails:
  "objectFault e (fst ip) = Some (ExistsFails m) \<Longrightarrow>
   copyOne config e st ip = catchError st (snd ip) m"
  by (simp add: copyOne_def fileExists_def Let_def)

lemma copyOne_copyFails:
  "objectFault e (fst ip) = Some (CopyFails m) \<Longrightarrow>
   \<not> destPresent config (store st) (snd ip) \<Longrightarrow>
   copyOne config e st ip = catchError st (snd ip) m"
  by (simp add: copyOne_def fileExists_def copyFile_def destPresent_def Let_def)

lemma copyOne_noFault:
  assumes "objectFault e (fst ip) = None"
      and "map_of (objects (store st) (gcs_stagingBucket config)) (fullPath (snd ip)) \<noteq> None"
  shows "destPresent config (store (copyOne config e st ip)) (snd ip)"
  using assms
  by (cases rule: copyOne_cases[of config e st ip])
     (simp_all add: destPresent_def update_conv')

lemma copyOne_settles:
  assumes "map_of (objects (store st) (gcs_stagingBucket config)) (fullPath (snd ip)) \<noteq> None"
  shows "settledIn config e (copyOne config e st ip) ip"
proof (cases "objectFault e (fst ip)")
  case None
  with copyOne_noFault[OF None assms] show ?thesis
    by (simp add: settledIn_def settled_def)
next
  case (Some f)
  show ?thesis
  proof (cases f)
    case (ExistsFails m)
    with Some copyOne_existsFails[of e ip m config st] show ?thesis
      by (simp add: settledIn_def settled_def catchError_def)
  next
    case (CopyFails m)
    show ?thesis
    proof (cases "destPresent config (store st) (snd ip)")
      case True
      from destPresent_keeps[OF True, of e ip] Some CopyFails show ?thesis
        by (simp add: settledIn_def settled_def)
    next
      case False
      with Some CopyFails copyOne_copyFails[of e ip m config st] show ?thesis
        by (simp add: settledIn_def settled_def catchError_def)
    qed
  qed
qed

lemma settled_keeps:
  assumes "settledIn config e st ip"
  shows "settledIn config e (copyOne config e st x) ip"
proof -
  from copyOne_errors[of config e st x] have "set (errors st) \<subseteq> set (errors (copyOne config e st x))"
    by auto
  with assms destPresent_keeps[of config st "snd ip" e x] show ?thesis
    by (auto simp: settledIn_def settled_def split: option.splits objectFault.splits)
qed

lemma fold_settled_keeps:
  "settledIn config e st ip \<Longrightarrow> settledIn config e (foldl (copyOne config e) st xs) ip"
  by (induction xs arbitrary: st) (simp_all add: settled_keeps)

lemma source_keeps:
  "map_of (objects (store st) b) n \<noteq> None \<Longrightarrow>
   map_of (objects (store (copyOne config e st x)) b) n \<noteq> None"
  using copyOne_keeps by fastforce

lemma fold_settles:
  assumes "\<forall>ip\<in>set xs. map_of (objects (store st) (gcs_stagingBucket config)) (fullPath (snd ip)) \<noteq> None"
      and "ip \<in> set xs"
  shows "settledIn config e (foldl (copyOne config e) st xs) ip"
  using assms
proof (induction xs arbitrary: st)
  case Nil
  then show ?case by simp
next
  case (Cons x xs)
  show ?case
  proof (cases "ip = x")
    case True
    from Cons.prems(1) have "map_of (objects (store st) (gcs_stagingBucket config)) (fullPath (snd x)) \<noteq> None"
      by simp
    from copyOne_settles[OF this] have "settledIn config e (copyOne config e st x) x" .
    from fold_settled_keeps[OF this] True show ?thesis by simp
  next
    case False
    with Cons.prems(2) have in_xs: "ip \<in> set xs" by simp
    have "\<forall>ip\<in>set xs. map_of (objects (store (copyOne config e st x)) (gcs_stagingBucket config))
              (fullPath (snd ip)) \<noteq> None"
      using Cons.prems(1) source_keeps by simp
    from Cons.IH[OF this in_xs] show ?thesis by simp
  qed
qed

lemma staged_sources:
  "k \<in> set (staged config s) \<Longrightarrow> map_of (objects s (gcs_stagingBucket config)) k \<noteq> None"
  by (auto simp: staged_def listObjects_def map_of_eq_None_iff image_iff)

text \<open>
  Claim C2. In a live run that returns a result, an error raised during one object's
  existence check or copy is caught for that object: the iteration appends the object's
  path and the message to the error list, adds one to \<open>filesErrored\<close> and changes nothing
  else, and the loop goes on. So \<open>files_processed\<close> is the number of eligible objects
  whatever failed, \<open>files_errored\<close> is the length of the error list, every recorded path
  is the path of an eligible object, and every eligible object is settled: with no fault
  planned for it its destination is present after the run; a failed existence check is in
  the error list; a failing copy is in the error list unless the destination was present.
\<close>

theorem per_object_error_isolation:
  assumes "\<not> job_dryRun config"
      and "snd (reorganizeToHive e config s) = Inr (r, errs)"
  shows "files_processed r = length (parsedFiles (scanFiles config e (staged config s)))
     \<and> files_errored r = length errs
     \<and> fst ` set errs \<subseteq> fullPath ` set (parsedFiles (scanFiles config e (staged config s)))
     \<and> (\<forall>ip \<in> set (enumerate 0 (parsedFiles (scanFiles config e (staged config s)))).
           settled config e (fst (reorganizeToHive e config s)) errs ip)
     \<and> (objectFault e i = Some (ExistsFails m) \<longrightarrow>
           copyOne config e st (i, p)
             = st\<lparr> errors := errors st @ [(fullPath p, m)], filesErrored := filesErrored st + 1 \<rparr>)
     \<and> (objectFault e i = Some (CopyFails m) \<and> \<not> destPresent config (store st) p \<longrightarrow>
           copyOne config e st (i, p)
             = st\<lparr> errors := errors st @ [(fullPath p, m)], filesErrored := filesErrored st + 1 \<rparr>)"
proof -
  define ps where "ps = parsedFiles (scanFiles config e (staged config s))"
  define init :: "gcs \<Rightarrow> copyState" where
    "init = (\<lambda>s. \<lparr> store = s, filesCopied = 0, filesSkipped = 0, filesErrored = 0, errors = [] \<rparr>)"
  from live_shape[OF assms] obtain s2 where
    a: "objects s2 = objects s"
      "fst (reorganizeToHive e config s) = store (copyFiles config e s2 ps)"
      "files_processed r = length ps"
      "files_errored r = filesErrored (copyFiles config e s2 ps)"
      "errs = errors (copyFiles config e s2 ps)"
    unfolding ps_def by (metis ReorganizeResult.select_convs(1,4))
  have l: "copyFiles config e s2 ps = foldl (copyOne config e) (init s2) (enumerate 0 ps)"
    by (simp add: copyFiles_def init_def)
  from fold_errors[of config e "init s2" "enumerate 0 ps"] obtain new where
    n: "errors (copyFiles config e s2 ps) = new"
       "filesErrored (copyFiles config e s2 ps) = length new"
       "fst ` set new \<subseteq> (\<lambda>ip. fullPath (snd ip)) ` set (enumerate 0 ps)"
    by (auto simp: l init_def)
  have c2: "files_errored r = length errs"
    using a(4,5) n(1,2) by simp
  have "(\<lambda>ip. fullPath (snd ip)) ` set (enumerate 0 ps) = fullPath ` set ps"
    using snd_enumerate_set[of 0 ps] by (metis image_image)
  with n(1,3) a(5) have c3: "fst ` set errs \<subseteq> fullPath ` set ps"
    by simp
  have src: "\<forall>ip\<in>set (enumerate 0 ps).
     map_of (objects (store (init s2)) (gcs_stagingBucket config)) (fullPath (snd ip)) \<noteq> None"
  proof
    fix ip assume "ip \<in> set (enumerate 0 ps)"
    then have "snd ip \<in> set ps"
      using snd_enumerate_set[of 0 ps] by blast
    then have "fullPath (snd ip) \<in> set (staged config s)"
      using parsed_origin unfolding ps_def by blast
    from staged_sources[OF this] a(1)
    show "map_of (objects (store (init s2)) (gcs_stagingBucket config)) (fullPath (snd ip)) \<noteq> None"
      by (simp add: init_def)
  qed
  have c4: "\<forall>ip \<in> set (enumerate 0 ps). settled config e (fst (reorganizeToHive e config s)) errs ip"
  proof
    fix ip assume "ip \<in> set (enumerate 0 ps)"
    from fold_settles[OF src this] show "settled config e (fst (reorganizeToHive e config s)) errs ip"
      using a(2,5) l by (simp add: settledIn_def)
  qed
  have c5: "objectFault e i = Some (ExistsFails m) \<longrightarrow>
           copyOne config e st (i, p)
             = st\<lparr> errors := errors st @ [(fullPath p, m)], filesErrored := filesErrored st + 1 \<rparr>"
    using copyOne_existsFails[of e "(i, p)" m config st] by (simp add: catchError_def)
  have c6: "objectFault e i = Some (CopyFails m) \<and> \<not> destPresent config (store st) p \<longrightarrow>
           copyOne config e st (i, p)
             = st\<lparr> errors := errors st @ [(fullPath p, m)], filesErrored := filesErrored st + 1 \<rparr>"
    using copyOne_copyFails[of e "(i, p)" m config st] by (simp add: catchError_def)
  from a(3) c2 c3 c4 c5 c6 show ?thesis
    unfolding ps_def by blast
qed

text \<open>The run over ten eligible objects in which the copy of object number 3 fails.\<close>

lemma ex10_run:
  "snd (reorganizeToHive exFaultEnv exConfig exStore10)
     = Inr (\<lparr> files_processed = 10, files_copied = 9, files_skipped = 0, files_errored = 1,
              duration_seconds = 2 \<rparr>,
            [(''FOCUS-Reports/2024/06/03/f.csv.gz'', ''copy failed'')])"
  by code_simp

lemma ex10_present:
  "list_all (\<lambda>d. map_of (objects (fst (reorganizeToHive exFaultEnv exConfig exStore10)) ''hive'')
                    (''year=2024/month=06/day='' @ d @ ''/f.csv.gz'') \<noteq> None)
     [''04'', ''05'', ''06'', ''07'', ''08'', ''09'', ''10'']
   \<and> map_of (objects (fst (reorganizeToHive exFaultEnv exConfig exStore10)) ''hive'')
        ''year=2024/month=06/day=03/f.csv.gz'' = None"
  by code_simp

text \<open>
  Object 3 of 10 fails its copy: objects 4 to 10 are copied all the same, the result has
  \<open>files_errored = 1\<close> and \<open>files_processed = 10\<close>, and the error list holds object 3.
\<close>

theorem per_object_error_isolation_witness:
  "\<not> job_dryRun exConfig
   \<and> snd (reorganizeToHive exFaultEnv exConfig exStore10)
       = Inr (\<lparr> files_processed = 10, files_copied = 9, files_skipped = 0, files_errored = 1,
                duration_seconds = 2 \<rparr>,
              [(''FOCUS-Reports/2024/06/03/f.csv.gz'', ''copy failed'')])
   \<and> length (parsedFiles (scanFiles exConfig exFaultEnv (staged exConfig exStore10))) = 10
   \<and> list_all (settled exConfig exFaultEnv (fst (reorganizeToHive exFaultEnv exConfig exStore10))
                 [(''FOCUS-Reports/2024/06/03/f.csv.gz'', ''copy failed'')])
        (enumerate 0 (parsedFiles (scanFiles exConfig exFaultEnv (staged exConfig exStore10))))
   \<and> list_all (\<lambda>d. map_of (objects (fst (reorganizeToHive exFaultEnv exConfig exStore10)) ''hive'')
                    (''year=2024/month=06/day='' @ d @ ''/f.csv.gz'') \<noteq> None)
        [''04'', ''05'', ''06'', ''07'', ''08'', ''09'', ''10'']
   \<and> map_of (objects (fst (reorganizeToHive exFaultEnv exConfig exStore10)) ''hive'')
        ''year=2024/month=06/day=03/f.csv.gz'' = None"
proof -
  have live: "\<not> job_dryRun exConfig"
    by (simp add: exConfig_def)
  note th = per_object_error_isolation[OF live ex10_run]
  from th have "length (parsedFiles (scanFiles exConfig exFaultEnv (staged exConfig exStore10))) = 10"
    by simp
  moreover from th have
    "list_all (settled exConfig exFaultEnv (fst (reorganizeToHive exFaultEnv exConfig exStore10))
                 [(''FOCUS-Reports/2024/06/03/f.csv.gz'', ''copy failed'')])
        (enumerate 0 (parsedFiles (scanFiles exConfig exFaultEnv (staged exConfig exStore10))))"
    unfolding list_all_iff by blast
  ultimately show ?thesis
    using live ex10_run ex10_present by blast
qed

subsection \<open>Running the stage twice\<close>

text \<open>
  Claim C1, as amended. Two live runs one after the other, the second on the store the
  first one left. If neither run counts a per-object error and both runs select the same
  objects (the scan of the staging listing retains the same parsed files in both), then
  the second run has \<open>files_copied = 0\<close> and \<open>files_skipped\<close> equal to the first run's
  \<open>files_processed\<close>, and it leaves the store as it found it: nothing is copied again. In
  any run whatsoever an object that is present keeps its content: nothing is overwritten.
\<close>

theorem idempotent_rerun:
  assumes "\<not> job_dryRun config"
    and "snd (reorganizeToHive e1 config s0) = Inr (r1, errs1)"
    and "files_errored r1 = 0"
    and "snd (reorganizeToHive e2 config (fst (reorganizeToHive e1 config s0))) = Inr (r2, errs2)"
    and "files_errored r2 = 0"
    and "parsedFiles (scanFiles config e2 (staged config s0))
           = parsedFiles (scanFiles config e1 (staged config s0))"
  shows "files_copied r2 = 0 \<and> files_skipped r2 = files_processed r1
     \<and> fst (reorganizeToHive e2 config (fst (reorganizeToHive e1 config s0)))
         = fst (reorganizeToHive e1 config s0)
     \<and> (map_of (objects s b) n = Some c \<longrightarrow>
          map_of (objects (fst (reorganizeToHive e config' s)) b) n = Some c)"
  using rerun_main[OF assms] run_keeps[of s b n c e config'] by blast

text \<open>Two runs over the example store.\<close>

lemma ex_run1:
  "snd (reorganizeToHive exEnv exConfig exStore)
     = Inr (\<lparr> files_processed = 2, files_copied = 2, files_skipped = 0, files_errored = 0,
              duration_seconds = 2 \<rparr>, [])"
  by code_simp

text \<open>
  Incremental mode with seven days: the first run at 2024-06-15, 01:00, the second one
  minute later. Both select the one object dated 2024-06-08.
\<close>

lemma ex_inc_run1:
  "snd (reorganizeToHive exEnv (exConfig\<lparr> job_syncMode := Incremental \<rparr>) exStore)
     = Inr (\<lparr> files_processed = 1, files_copied = 1, files_skipped = 0, files_errored = 0,
              duration_seconds = 2 \<rparr>, [])"
  by code_simp

lemma ex_inc_run2:
  "snd (reorganizeToHive exLaterEnv (exConfig\<lparr> job_syncMode := Incremental \<rparr>)
          (fst (reorganizeToHive exEnv (exConfig\<lparr> job_syncMode := Incremental \<rparr>) exStore)))
     = Inr (\<lparr> files_processed = 1, files_copied = 0, files_skipped = 1, files_errored = 0,
              duration_seconds = 2 \<rparr>, [])"
  by code_simp

lemma ex_inc_selection:
  "parsedFiles (scanFiles (exConfig\<lparr> job_syncMode := Incremental \<rparr>) exLaterEnv
       (staged (exConfig\<lparr> job_syncMode := Incremental \<rparr>) exStore))
     = parsedFiles (scanFiles (exConfig\<lparr> job_syncMode := Incremental \<rparr>) exEnv
         (staged (exConfig\<lparr> job_syncMode := Incremental \<rparr>) exStore))"
  "lt_timeInDay (clock exLaterEnv 0) = 3660000" "lt_timeInDay (clock exEnv 0) = 3600000"
  by code_simp+

lemma ex_inc_object:
  "map_of (objects (fst (reorganizeToHive exEnv (exConfig\<lparr> job_syncMode := Incremental \<rparr>)
                           exStore)) ''hive'')
      ''year=2024/month=06/day=08/a.csv.gz'' = Some ''A''"
  by code_simp

theorem idempotent_rerun_witness:
  "\<not> job_dryRun (exConfig\<lparr> job_syncMode := Incremental \<rparr>)
   \<and> snd (reorganizeToHive exEnv (exConfig\<lparr> job_syncMode := Incremental \<rparr>) exStore)
       = Inr (\<lparr> files_processed = 1, files_copied = 1, files_skipped = 0, files_errored = 0,
                duration_seconds = 2 \<rparr>, [])
   \<and> snd (reorganizeToHive exLaterEnv (exConfig\<lparr> job_syncMode := Incremental \<rparr>)
            (fst (reorganizeToHive exEnv (exConfig\<lparr> job_syncMode := Incremental \<rparr>) exStore)))
       = Inr (\<lparr> files_processed = 1, files_copied = 0, files_skipped = 1, files_errored = 0,
                duration_seconds = 2 \<rparr>, [])
   \<and> parsedFiles (scanFiles (exConfig\<lparr> job_syncMode := Incremental \<rparr>) exLaterEnv
         (staged (exConfig\<lparr> job_syncMode := Incremental \<rparr>) exStore))
       = parsedFiles (scanFiles (exConfig\<lparr> job_syncMode := Incremental \<rparr>) exEnv
           (staged (exConfig\<lparr> job_syncMode := Incremental \<rparr>) exStore))
   \<and> lt_timeInDay (clock exLaterEnv 0) = 3660000 \<and> lt_timeInDay (clock exEnv 0) = 3600000
   \<and> fst (reorganizeToHive exLaterEnv (exConfig\<lparr> job_syncMode := Incremental \<rparr>)
            (fst (reorganizeToHive exEnv (exConfig\<lparr> job_syncMode := Incremental \<rparr>) exStore)))
       = fst (reorganizeToHive exEnv (exConfig\<lparr> job_syncMode := Incremental \<rparr>) exStore)
   \<and> map_of (objects (fst (reorganizeToHive exEnv (exConfig\<lparr> job_syncMode := Incremental \<rparr>)
                             exStore)) ''hive'')
        ''year=2024/month=06/day=08/a.csv.gz'' = Some ''A''
   \<and> map_of (objects (fst (reorganizeToHive exLaterEnv (exConfig\<lparr> job_syncMode := Incremental \<rparr>)
                 (fst (reorganizeToHive exEnv (exConfig\<lparr> job_syncMode := Incremental \<rparr>)
                         exStore)))) ''hive'')
        ''year=2024/month=06/day=08/a.csv.gz'' = Some ''A''"
proof -
  have live: "\<not> job_dryRun (exConfig\<lparr> job_syncMode := Incremental \<rparr>)"
    by (simp add: exConfig_def)
  have z: "files_errored \<lparr> files_processed = 1, files_copied = 1, files_skipped = 0, files_errored = 0,
                duration_seconds = 2 \<rparr> = 0"
     "files_errored \<lparr> files_processed = 1, files_copied = 0, files_skipped = 1, files_errored = 0,
                duration_seconds = 2 \<rparr> = 0"
    by simp_all
  from ex_inc_object
    idempotent_rerun[OF live ex_inc_run1 z(1) ex_inc_run2 z(2) ex_inc_selection(1),
      where s = "fst (reorganizeToHive exEnv (exConfig\<lparr> job_syncMode := Incremental \<rparr>) exStore)"
        and b = "''hive''" and n = "''year=2024/month=06/day=08/a.csv.gz''" and c = "''A''"
        and e = exLaterEnv and config' = "exConfig\<lparr> job_syncMode := Incremental \<rparr>"]
  have "fst (reorganizeToHive exLaterEnv (exConfig\<lparr> job_syncMode := Incremental \<rparr>)
            (fst (reorganizeToHive exEnv (exConfig\<lparr> job_syncMode := Incremental \<rparr>) exStore)))
       = fst (reorganizeToHive exEnv (exConfig\<lparr> job_syncMode := Incremental \<rparr>) exStore)"
    and "map_of (objects (fst (reorganizeToHive exLaterEnv (exConfig\<lparr> job_syncMode := Incremental \<rparr>)
                 (fst (reorganizeToHive exEnv (exConfig\<lparr> job_syncMode := Incremental \<rparr>)
                         exStore)))) ''hive'')
        ''year=2024/month=06/day=08/a.csv.gz'' = Some ''A''"
    by simp_all
  with live ex_inc_run1 ex_inc_run2 ex_inc_selection ex_inc_object
  show ?thesis by blast
qed

text \<open>
  The claim as stated fails. First pair of runs: the copy of the first object fails in the
  first run, which processes 2 objects; the second run, on the resulting store and with
  no failure, copies 1 object and skips 1. Second pair, incremental mode with seven days:
  the first run at 2024-06-15 processes 1 object (dated 2024-06-08); the second run, one
  day later on the same staging objects, processes and skips none. Third pair: the first
  run processes and copies 2 objects; in the second run the existence check of the first
  object fails, so it skips 1 and counts 1 error.
\<close>

theorem idempotent_rerun_counterexample:
  "snd (reorganizeToHive (exEnv\<lparr> objectFault := (\<lambda>_. None)(0 := Some (CopyFails ''boom'')) \<rparr>)
          exConfig exStore)
     = Inr (\<lparr> files_processed = 2, files_copied = 1, files_skipped = 0, files_errored = 1,
              duration_seconds = 2 \<rparr>, [(''FOCUS-Reports/2024/06/08/a.csv.gz'', ''boom'')])
   \<and> snd (reorganizeToHive exEnv exConfig
            (fst (reorganizeToHive
                    (exEnv\<lparr> objectFault := (\<lambda>_. None)(0 := Some (CopyFails ''boom'')) \<rparr>)
                    exConfig exStore)))
     = Inr (\<lparr> files_processed = 2, files_copied = 1, files_skipped = 1, files_errored = 0,
              duration_seconds = 2 \<rparr>, [])
   \<and> snd (reorganizeToHive exEnv (exConfig\<lparr> job_syncMode := Incremental \<rparr>) exStore)
     = Inr (\<lparr> files_processed = 1, files_copied = 1, files_skipped = 0, files_errored = 0,
              duration_seconds = 2 \<rparr>, [])
   \<and> snd (reorganizeToHive (exEnv\<lparr> clock := (\<lambda>_. exNow\<lparr> lt_date := 16 \<rparr>) \<rparr>)
            (exConfig\<lparr> job_syncMode := Incremental \<rparr>)
            (fst (reorganizeToHive exEnv (exConfig\<lparr> job_syncMode := Incremental \<rparr>) exStore)))
     = Inr (\<lparr> files_processed = 0, files_copied = 0, files_skipped = 0, files_errored = 0,
              duration_seconds = 2 \<rparr>, [])
   \<and> snd (reorganizeToHive exEnv exConfig exStore)
     = Inr (\<lparr> files_processed = 2, files_copied = 2, files_skipped = 0, files_errored = 0,
              duration_seconds = 2 \<rparr>, [])
   \<and> snd (reorganizeToHive
            (exEnv\<lparr> objectFault := (\<lambda>_. None)(0 := Some (ExistsFails ''timeout'')) \<rparr>)
            exConfig (fst (reorganizeToHive exEnv exConfig exStore)))
     = Inr (\<lparr> files_processed = 2, files_copied = 0, files_skipped = 1, files_errored = 1,
              duration_seconds = 2 \<rparr>, [(''FOCUS-Reports/2024/06/08/a.csv.gz'', ''timeout'')])"
  by code_simp

subsection \<open>Keys that do not match\<close>

lemma length_filter_mono:
  "(\<And>x. x \<in> set xs \<Longrightarrow> P x \<Longrightarrow> Q x) \<Longrightarrow> length (filter P xs) \<le> length (filter Q xs)"
  by (induction xs) auto

lemma processed_bound:
  assumes "snd (reorganizeToHive e config s) = Inr (r, errs)"
  shows "files_processed r \<le> length (filter (eligible config e) (enumerate 0 (staged config s)))"
proof (cases "job_dryRun config")
  case True
  from dry_run_result[OF True assms] show ?thesis by simp
next
  case False
  from live_shape[OF False assms] obtain s2 where
    "files_processed r = length (parsedFiles (scanFiles config e (staged config s)))"
    by (metis ReorganizeResult.select_convs(1))
  then show ?thesis by (simp add: scanFiles_parsed)
qed

lemma errs_origin:
  assumes "snd (reorganizeToHive e config s) = Inr (r, errs)"
  shows "fst ` set errs \<subseteq> fullPath ` set (parsedFiles (scanFiles config e (staged config s)))"
proof (cases "job_dryRun config")
  case True
  from dry_run_result[OF True assms] show ?thesis by simp
next
  case False
  define ps where "ps = parsedFiles (scanFiles config e (staged config s))"
  from live_shape[OF False assms] obtain s2 where
    a: "errs = errors (copyFiles config e s2 ps)"
    unfolding ps_def by blast
  from fold_errors[of config e "\<lparr> store = s2, filesCopied = 0, filesSkipped = 0, filesErrored = 0, errors = [] \<rparr>" "enumerate 0 ps"]
  have "fst ` set (errors (copyFiles config e s2 ps)) \<subseteq> (\<lambda>ip. fullPath (snd ip)) ` set (enumerate 0 ps)"
    by (auto simp: copyFiles_def)
  moreover have "(\<lambda>ip. fullPath (snd ip)) ` set (enumerate 0 ps) = fullPath ` set ps"
    using snd_enumerate_set[of 0 ps] by (metis image_image)
  ultimately show ?thesis using a unfolding ps_def by simp
qed

text \<open>
  Claim C5. A key that does not match the structure
  \<open>FOCUS-Reports/<4 digits>/<2 digits>/<2 digits>/<name>.csv.gz\<close> in full is left out
  silently, whatever the sync mode and whether the run is live or dry: parsing returns
  null, the key is never eligible and never among the parsed files, it is not counted in
  \<open>files_processed\<close> (which is at most the number of other listed keys), it is not in the
  error list, and the run requests no copy of it.
\<close>

theorem non_matching_keys_skipped:
  assumes "\<not> matchesStructure key"
  shows "parseFilePath z key = None
     \<and> \<not> eligible config e (i, key)
     \<and> key \<notin> fullPath ` set (parsedFiles (scanFiles config e files))
     \<and> (snd (reorganizeToHive e config s) = Inr (r, errs) \<longrightarrow>
          key \<notin> fst ` set errs
          \<and> files_processed r \<le> length (filter (\<lambda>k. k \<noteq> key) (staged config s)))
     \<and> (CopyObject sb key db dn \<in> set (calls (fst (reorganizeToHive e config s))) \<longrightarrow>
          CopyObject sb key db dn \<in> set (calls s))"
proof -
  from assms have none: "parseFilePath z' key = None" for z'
    using parse_iff[of z' key] by simp
  then have ne: "\<not> eligible config e (i, key)"
    by (simp add: eligible_def)
  have np: "key \<notin> fullPath ` set (parsedFiles (scanFiles config e fs))" for fs
  proof
    assume "key \<in> fullPath ` set (parsedFiles (scanFiles config e fs))"
    then obtain p where "p \<in> set (parsedFiles (scanFiles config e fs))" "fullPath p = key"
      by auto
    with parsed_origin[of p config e fs] none[of "zone e"] show False by simp
  qed
  have run: "key \<notin> fst ` set errs
          \<and> files_processed r \<le> length (filter (\<lambda>k. k \<noteq> key) (staged config s))"
    if res: "snd (reorganizeToHive e config s) = Inr (r, errs)"
  proof -
    from errs_origin[OF res] np[of "staged config s"] have "key \<notin> fst ` set errs"
      by blast
    moreover have "length (filter (eligible config e) (enumerate 0 (staged config s)))
        \<le> length (filter (\<lambda>f. snd f \<noteq> key) (enumerate 0 (staged config s)))"
    proof (rule length_filter_mono)
      fix x assume "eligible config e x"
      with none[of "zone e"] show "snd x \<noteq> key"
        by (auto simp: eligible_def)
    qed
    moreover have "length (filter (\<lambda>f. snd f \<noteq> key) (enumerate 0 (staged config s)))
        = length (filter (\<lambda>k. k \<noteq> key) (staged config s))"
      using filter_enumerate_snd[of "\<lambda>k. k \<noteq> key" 0 "staged config s"]
      by (metis length_map)
    ultimately show ?thesis
      using processed_bound[OF res] by simp
  qed
  have cp: "CopyObject sb key db dn \<in> set (calls s)"
    if "CopyObject sb key db dn \<in> set (calls (fst (reorganizeToHive e config s)))"
  proof -
    from run_calls[OF that] np[of "staged config s"] show ?thesis
      by auto
  qed
  from none[of z] ne np[of files] run cp show ?thesis by blast
qed

lemma ex_readme: "parseFilePath utcZone ''FOCUS-Reports/readme.txt'' = None"
  by code_simp

lemma ex_run1_calls:
  "calls (fst (reorganizeToHive exEnv exConfig exStore))
     = [CreateBucket ''hive'' ''europe-west3'',
        CopyObject ''staging'' ''FOCUS-Reports/2024/06/08/a.csv.gz'' ''hive''
          ''year=2024/month=06/day=08/a.csv.gz'',
        CopyObject ''staging'' ''FOCUS-Reports/2024/06/07/b.csv.gz'' ''hive''
          ''year=2024/month=06/day=07/b.csv.gz'']"
  by code_simp

lemma ex_staged:
  "staged exConfig exStore
     = [''FOCUS-Reports/2024/06/08/a.csv.gz'', ''FOCUS-Reports/readme.txt'',
        ''FOCUS-Reports/2024/06/07/b.csv.gz'']"
  by code_simp

theorem non_matching_keys_skipped_witness:
  "\<not> matchesStructure ''FOCUS-Reports/readme.txt''
   \<and> parseFilePath utcZone ''FOCUS-Reports/readme.txt'' = None
   \<and> staged exConfig exStore
       = [''FOCUS-Reports/2024/06/08/a.csv.gz'', ''FOCUS-Reports/readme.txt'',
          ''FOCUS-Reports/2024/06/07/b.csv.gz'']
   \<and> snd (reorganizeToHive exEnv exConfig exStore)
       = Inr (\<lparr> files_processed = 2, files_copied = 2, files_skipped = 0, files_errored = 0,
                duration_seconds = 2 \<rparr>, [])
   \<and> CopyObject ''staging'' ''FOCUS-Reports/readme.txt'' ''hive'' ''readme.txt''
       \<notin> set (calls (fst (reorganizeToHive exEnv exConfig exStore)))"
proof -
  have nm: "\<not> matchesStructure ''FOCUS-Reports/readme.txt''"
    using parse_iff[of utcZone "''FOCUS-Reports/readme.txt''"] ex_readme by simp
  have "CopyObject ''staging'' ''FOCUS-Reports/readme.txt'' ''hive'' ''readme.txt''
       \<notin> set (calls exStore)"
    by (simp add: exStore_def)
  with non_matching_keys_skipped[OF nm, where z = utcZone and e = exEnv and config = exConfig
      and s = exStore
      and sb = "''staging''" and db = "''hive''" and dn = "''readme.txt''"]
  have "CopyObject ''staging'' ''FOCUS-Reports/readme.txt'' ''hive'' ''readme.txt''
       \<notin> set (calls (fst (reorganizeToHive exEnv exConfig exStore)))"
    by blast
  with nm ex_readme ex_staged ex_run1 show ?thesis by blast
qed

subsection \<open>Keys with impossible dates\<close>

lemma rollover_regex:
  "FILE_PATH_REGEX ''FOCUS-Reports/2024/13/40/x.csv.gz'' = Some (''2024'', ''13'', ''40'', ''x.csv.gz'')"
  "FILE_PATH_REGEX ''FOCUS-Reports/2025/02/09/x.csv.gz'' = Some (''2025'', ''02'', ''09'', ''x.csv.gz'')"
  by code_simp+

lemma rollover_numbers:
  "parseInt ''2024'' = 2024" "parseInt ''13'' - 1 = 12" "parseInt ''40'' = 40"
  "parseInt ''2025'' = 2025" "parseInt ''02'' - 1 = 1" "parseInt ''09'' = 9"
  "MakeDay 2024 12 40 = MakeDay 2025 1 9"
  by code_simp+

lemma rollover_date: "newDate z 2024 12 40 = newDate z 2025 1 9"
  by (simp add: newDate_def rollover_numbers(7))

lemma rollover_parse:
  "parseFilePath z ''FOCUS-Reports/2024/13/40/x.csv.gz''
     = Some \<lparr> year = ''2024'', month = ''13'', day = ''40'', filename = ''x.csv.gz'',
              fullPath = ''FOCUS-Reports/2024/13/40/x.csv.gz'', date = newDate z 2025 1 9 \<rparr>"
  "parseFilePath z ''FOCUS-Reports/2025/02/09/x.csv.gz''
     = Some \<lparr> year = ''2025'', month = ''02'', day = ''09'', filename = ''x.csv.gz'',
              fullPath = ''FOCUS-Reports/2025/02/09/x.csv.gz'', date = newDate z 2025 1 9 \<rparr>"
  unfolding parseFilePath_def rollover_regex option.case prod.case rollover_numbers rollover_date
  by (rule refl)+

lemma rollover_scanFile:
  "scanFile config e st (i, ''FOCUS-Reports/2024/13/40/x.csv.gz'')
     = (if job_syncMode config = Incremental
           \<and> \<not> isWithinDateRange (zone e) (newDate (zone e) 2025 1 9) (job_daysToSync config)
                 (clock e i)
        then st\<lparr> skippedOutOfRange := skippedOutOfRange st + 1 \<rparr>
        else st\<lparr> parsedFiles := parsedFiles st @
               [\<lparr> year = ''2024'', month = ''13'', day = ''40'', filename = ''x.csv.gz'',
                  fullPath = ''FOCUS-Reports/2024/13/40/x.csv.gz'',
                  date = newDate (zone e) 2025 1 9 \<rparr>] \<rparr>)"
  unfolding scanFile_def snd_conv fst_conv rollover_parse by simp

lemma rollover_eligible:
  "eligible config e (i, ''FOCUS-Reports/2024/13/40/x.csv.gz'')
     \<longleftrightarrow> job_syncMode config = Full
          \<or> isWithinDateRange (zone e) (newDate (zone e) 2025 1 9) (job_daysToSync config)
               (clock e i)"
  "eligible config e (i, ''FOCUS-Reports/2025/02/09/x.csv.gz'')
     \<longleftrightarrow> job_syncMode config = Full
          \<or> isWithinDateRange (zone e) (newDate (zone e) 2025 1 9) (job_daysToSync config)
               (clock e i)"
  unfolding eligible_def snd_conv fst_conv rollover_parse by simp_all

lemma rollover_retained:
  assumes "i < length files" and "files ! i = ''FOCUS-Reports/2024/13/40/x.csv.gz''"
      and "job_syncMode config = Full
           \<or> isWithinDateRange (zone e) (newDate (zone e) 2025 1 9) (job_daysToSync config)
                (clock e i)"
  shows "\<lparr> year = ''2024'', month = ''13'', day = ''40'', filename = ''x.csv.gz'',
            fullPath = ''FOCUS-Reports/2024/13/40/x.csv.gz'', date = newDate (zone e) 2025 1 9 \<rparr>
           \<in> set (parsedFiles (scanFiles config e files))"
proof -
  from assms(1,2) have "(i, ''FOCUS-Reports/2024/13/40/x.csv.gz'') \<in> set (enumerate 0 files)"
    by (simp add: in_set_enumerate_eq)
  moreover from assms(3) have "eligible config e (i, ''FOCUS-Reports/2024/13/40/x.csv.gz'')"
    by (simp add: rollover_eligible)
  ultimately have "the (parseFilePath (zone e) (snd (i, ''FOCUS-Reports/2024/13/40/x.csv.gz'')))
           \<in> set (parsedFiles (scanFiles config e files))"
    unfolding scanFiles_parsed by (intro image_eqI[where x = "(i, ''FOCUS-Reports/2024/13/40/x.csv.gz'')"]
      | simp)+
  then show ?thesis
    unfolding snd_conv rollover_parse by simp
qed

lemma rollover_excluded:
  assumes "\<forall>i<length files. files ! i = ''FOCUS-Reports/2024/13/40/x.csv.gz'' \<longrightarrow>
             job_syncMode config = Incremental
             \<and> \<not> isWithinDateRange (zone e) (newDate (zone e) 2025 1 9) (job_daysToSync config)
                   (clock e i)"
  shows "''FOCUS-Reports/2024/13/40/x.csv.gz''
           \<notin> fullPath ` set (parsedFiles (scanFiles config e files))"
proof
  assume "''FOCUS-Reports/2024/13/40/x.csv.gz''
           \<in> fullPath ` set (parsedFiles (scanFiles config e files))"
  then obtain f where f: "f \<in> set (enumerate 0 files)" "eligible config e f"
    "fullPath (the (parseFilePath (zone e) (snd f))) = ''FOCUS-Reports/2024/13/40/x.csv.gz''"
    by (auto simp: scanFiles_parsed)
  from f(2) obtain q where q: "parseFilePath (zone e) (snd f) = Some q"
    by (auto simp: eligible_def split: option.splits)
  with f(3) parse_fullPath[OF q] have k: "snd f = ''FOCUS-Reports/2024/13/40/x.csv.gz''"
    by simp
  from f(1) have i: "fst f < length files" "files ! fst f = snd f"
    by (simp_all add: in_set_enumerate_eq)
  have "f = (fst f, ''FOCUS-Reports/2024/13/40/x.csv.gz'')"
    using k by (cases f) simp
  with f(2) have "eligible config e (fst f, ''FOCUS-Reports/2024/13/40/x.csv.gz'')"
    by simp
  with assms i k show False
    by (auto simp: rollover_eligible)
qed

text \<open>
  Claim C9. The key pattern checks digit counts only: any four, two and two digits are
  accepted, and the date is built from them by the Date constructor, where twelve more
  months are one more year and extra days are added to the day number. So
  \<open>FOCUS-Reports/2024/13/40/x.csv.gz\<close> parses, with the Date of 2025-02-09. The loop never
  counts it as non-matching: in full mode it retains it, and in incremental mode it
  retains it exactly when the Date of 2025-02-09 is within the window, as for the key
  dated 2025-02-09. With seven days (in UTC) it is retained when the clock shows
  2025-02-16 and left out when it shows 2025-02-17; a live run in full mode copies it to
  \<open>year=2024/month=13/day=40/x.csv.gz\<close>.
\<close>

theorem no_calendar_validation:
  assumes "length y = 4" "list_all isDigit y" "length m = 2" "list_all isDigit m"
      "length d = 2" "list_all isDigit d" "name \<noteq> []" "\<not> list_ex isLineTerminator name"
  shows "parseFilePath z (''FOCUS-Reports/'' @ y @ ''/'' @ m @ ''/'' @ d @ ''/'' @ name @ ''.csv.gz'')
       = Some \<lparr> year = y, month = m, day = d, filename = name @ ''.csv.gz'',
                fullPath = ''FOCUS-Reports/'' @ y @ ''/'' @ m @ ''/'' @ d @ ''/'' @ name @ ''.csv.gz'',
                date = newDate z (parseInt y) (parseInt m - 1) (parseInt d) \<rparr>
     \<and> MakeDay yr (mo + 12) dt = MakeDay (yr + 1) mo dt
     \<and> MakeDay yr mo (dt + k) = MakeDay yr mo dt + k
     \<and> parseFilePath z ''FOCUS-Reports/2024/13/40/x.csv.gz''
         = Some \<lparr> year = ''2024'', month = ''13'', day = ''40'', filename = ''x.csv.gz'',
                  fullPath = ''FOCUS-Reports/2024/13/40/x.csv.gz'', date = newDate z 2025 1 9 \<rparr>
     \<and> eligible config e (i, ''FOCUS-Reports/2024/13/40/x.csv.gz'')
         = eligible config e (i, ''FOCUS-Reports/2025/02/09/x.csv.gz'')
     \<and> scanFile config e st (i, ''FOCUS-Reports/2024/13/40/x.csv.gz'')
         = (if job_syncMode config = Incremental
               \<and> \<not> isWithinDateRange (zone e) (newDate (zone e) 2025 1 9) (job_daysToSync config)
                     (clock e i)
            then st\<lparr> skippedOutOfRange := skippedOutOfRange st + 1 \<rparr>
            else st\<lparr> parsedFiles := parsedFiles st @
                   [\<lparr> year = ''2024'', month = ''13'', day = ''40'', filename = ''x.csv.gz'',
                      fullPath = ''FOCUS-Reports/2024/13/40/x.csv.gz'',
                      date = newDate (zone e) 2025 1 9 \<rparr>] \<rparr>)
     \<and> (i < length files \<and> files ! i = ''FOCUS-Reports/2024/13/40/x.csv.gz''
          \<and> (job_syncMode config = Full
               \<or> isWithinDateRange (zone e) (newDate (zone e) 2025 1 9) (job_daysToSync config)
                    (clock e i)) \<longrightarrow>
          \<lparr> year = ''2024'', month = ''13'', day = ''40'', filename = ''x.csv.gz'',
            fullPath = ''FOCUS-Reports/2024/13/40/x.csv.gz'', date = newDate (zone e) 2025 1 9 \<rparr>
            \<in> set (parsedFiles (scanFiles config e files)))
     \<and> ((\<forall>j<length files. files ! j = ''FOCUS-Reports/2024/13/40/x.csv.gz'' \<longrightarrow>
             job_syncMode config = Incremental
             \<and> \<not> isWithinDateRange (zone e) (newDate (zone e) 2025 1 9) (job_daysToSync config)
                   (clock e j)) \<longrightarrow>
          ''FOCUS-Reports/2024/13/40/x.csv.gz''
            \<notin> fullPath ` set (parsedFiles (scanFiles config e files)))
     \<and> map fullPath (parsedFiles (scanFiles (exConfig\<lparr> job_syncMode := Incremental \<rparr>)
          (exEnv\<lparr> clock := (\<lambda>_. \<lparr> lt_year = 2025, lt_month = 1, lt_date = 16,
                                    lt_timeInDay = 3600000 \<rparr>) \<rparr>)
          [''FOCUS-Reports/2024/13/40/x.csv.gz'']))
         = [''FOCUS-Reports/2024/13/40/x.csv.gz'']
     \<and> parsedFiles (scanFiles (exConfig\<lparr> job_syncMode := Incremental \<rparr>)
          (exEnv\<lparr> clock := (\<lambda>_. \<lparr> lt_year = 2025, lt_month = 1, lt_date = 17,
                                    lt_timeInDay = 3600000 \<rparr>) \<rparr>)
          [''FOCUS-Reports/2024/13/40/x.csv.gz'']) = []
     \<and> skippedNonMatching (scanFiles (exConfig\<lparr> job_syncMode := Incremental \<rparr>)
          (exEnv\<lparr> clock := (\<lambda>_. \<lparr> lt_year = 2025, lt_month = 1, lt_date = 17,
                                    lt_timeInDay = 3600000 \<rparr>) \<rparr>)
          [''FOCUS-Reports/2024/13/40/x.csv.gz'']) = 0
     \<and> snd (reorganizeToHive exEnv exConfig exRolloverStore)
         = Inr (\<lparr> files_processed = 1, files_copied = 1, files_skipped = 0, files_errored = 0,
                  duration_seconds = 2 \<rparr>, [])
     \<and> objects (fst (reorganizeToHive exEnv exConfig exRolloverStore)) ''hive''
         = [(''year=2024/month=13/day=40/x.csv.gz'', ''X'')]"
proof -
  have a: "parseFilePath z (''FOCUS-Reports/'' @ y @ ''/'' @ m @ ''/'' @ d @ ''/'' @ name @ ''.csv.gz'')
       = Some \<lparr> year = y, month = m, day = d, filename = name @ ''.csv.gz'',
                fullPath = ''FOCUS-Reports/'' @ y @ ''/'' @ m @ ''/'' @ d @ ''/'' @ name @ ''.csv.gz'',
                date = newDate z (parseInt y) (parseInt m - 1) (parseInt d) \<rparr>"
    unfolding parseFilePath_def regex_complete[OF assms] by simp
  have el: "eligible config e (i, ''FOCUS-Reports/2024/13/40/x.csv.gz'')
         = eligible config e (i, ''FOCUS-Reports/2025/02/09/x.csv.gz'')"
    by (simp add: rollover_eligible)
  have r: "i < length files \<and> files ! i = ''FOCUS-Reports/2024/13/40/x.csv.gz''
          \<and> (job_syncMode config = Full
               \<or> isWithinDateRange (zone e) (newDate (zone e) 2025 1 9) (job_daysToSync config)
                    (clock e i)) \<longrightarrow>
          \<lparr> year = ''2024'', month = ''13'', day = ''40'', filename = ''x.csv.gz'',
            fullPath = ''FOCUS-Reports/2024/13/40/x.csv.gz'', date = newDate (zone e) 2025 1 9 \<rparr>
            \<in> set (parsedFiles (scanFiles config e files))"
    using rollover_retained[of i files config e] by blast
  have x: "(\<forall>j<length files. files ! j = ''FOCUS-Reports/2024/13/40/x.csv.gz'' \<longrightarrow>
             job_syncMode config = Incremental
             \<and> \<not> isWithinDateRange (zone e) (newDate (zone e) 2025 1 9) (job_daysToSync config)
                   (clock e j)) \<longrightarrow>
          ''FOCUS-Reports/2024/13/40/x.csv.gz''
            \<notin> fullPath ` set (parsedFiles (scanFiles config e files))"
    using rollover_excluded[of files config e] by blast
  have c1: "map fullPath (parsedFiles (scanFiles (exConfig\<lparr> job_syncMode := Incremental \<rparr>)
          (exEnv\<lparr> clock := (\<lambda>_. \<lparr> lt_year = 2025, lt_month = 1, lt_date = 16,
                                    lt_timeInDay = 3600000 \<rparr>) \<rparr>)
          [''FOCUS-Reports/2024/13/40/x.csv.gz'']))
         = [''FOCUS-Reports/2024/13/40/x.csv.gz'']"
    by code_simp
  have c2: "parsedFiles (scanFiles (exConfig\<lparr> job_syncMode := Incremental \<rparr>)
          (exEnv\<lparr> clock := (\<lambda>_. \<lparr> lt_year = 2025, lt_month = 1, lt_date = 17,
                                    lt_timeInDay = 3600000 \<rparr>) \<rparr>)
          [''FOCUS-Reports/2024/13/40/x.csv.gz'']) = []"
    by code_simp
  have c3: "skippedNonMatching (scanFiles (exConfig\<lparr> job_syncMode := Incremental \<rparr>)
          (exEnv\<lparr> clock := (\<lambda>_. \<lparr> lt_year = 2025, lt_month = 1, lt_date = 17,
                                    lt_timeInDay = 3600000 \<rparr>) \<rparr>)
          [''FOCUS-Reports/2024/13/40/x.csv.gz'']) = 0"
    by code_simp
  have c4: "snd (reorganizeToHive exEnv exConfig exRolloverStore)
         = Inr (\<lparr> files_processed = 1, files_copied = 1, files_skipped = 0, files_errored = 0,
                  duration_seconds = 2 \<rparr>, [])"
    by code_simp
  have c5: "objects (fst (reorganizeToHive exEnv exConfig exRolloverStore)) ''hive''
         = [(''year=2024/month=13/day=40/x.csv.gz'', ''X'')]"
    by code_simp
  from a el r x c1 c2 c3 c4 c5 rollover_parse(1)[of z] rollover_scanFile[of config e st i]
    MakeDay_month_carry[of yr mo dt] MakeDay_day_carry[of yr mo dt k]
  show ?thesis by blast
qed

theorem no_calendar_validation_witness:
  "length ''2024'' = 4 \<and> list_all isDigit ''2024'' \<and> length ''13'' = 2 \<and> list_all isDigit ''13''
   \<and> length ''40'' = 2 \<and> list_all isDigit ''40'' \<and> ''x'' \<noteq> [] \<and> \<not> list_ex isLineTerminator ''x''
   \<and> parseFilePath utcZone
        (''FOCUS-Reports/'' @ ''2024'' @ ''/'' @ ''13'' @ ''/'' @ ''40'' @ ''/'' @ ''x'' @ ''.csv.gz'')
       = Some \<lparr> year = ''2024'', month = ''13'', day = ''40'', filename = ''x'' @ ''.csv.gz'',
                fullPath = ''FOCUS-Reports/'' @ ''2024'' @ ''/'' @ ''13'' @ ''/'' @ ''40'' @ ''/'' @ ''x'' @ ''.csv.gz'',
                date = newDate utcZone (parseInt ''2024'') (parseInt ''13'' - 1) (parseInt ''40'') \<rparr>
   \<and> newDate utcZone (parseInt ''2024'') (parseInt ''13'' - 1) (parseInt ''40'')
       = newDate utcZone 2025 1 9
   \<and> newDate utcZone 2025 1 9 = Some 1739059200000
   \<and> [''FOCUS-Reports/2024/13/40/x.csv.gz''] ! 0 = ''FOCUS-Reports/2024/13/40/x.csv.gz''
   \<and> job_syncMode exConfig = Full
   \<and> \<lparr> year = ''2024'', month = ''13'', day = ''40'', filename = ''x.csv.gz'',
        fullPath = ''FOCUS-Reports/2024/13/40/x.csv.gz'', date = newDate (zone exEnv) 2025 1 9 \<rparr>
        \<in> set (parsedFiles (scanFiles exConfig exEnv [''FOCUS-Reports/2024/13/40/x.csv.gz'']))"
proof -
  have h: "length ''2024'' = 4" "list_all isDigit ''2024''" "length ''13'' = 2"
    "list_all isDigit ''13''" "length ''40'' = 2" "list_all isDigit ''40''" "''x'' \<noteq> []"
    "\<not> list_ex isLineTerminator ''x''"
    by (simp_all add: isDigit_def isLineTerminator_def)
  have d: "newDate utcZone (parseInt ''2024'') (parseInt ''13'' - 1) (parseInt ''40'')
             = newDate utcZone 2025 1 9"
    "newDate utcZone 2025 1 9 = Some 1739059200000"
    by code_simp+
  have f: "job_syncMode exConfig = Full"
    by (simp add: exConfig_def)
  have i: "(0::nat) < length [''FOCUS-Reports/2024/13/40/x.csv.gz'']"
    "[''FOCUS-Reports/2024/13/40/x.csv.gz''] ! 0 = ''FOCUS-Reports/2024/13/40/x.csv.gz''"
    by simp_all
  note th = no_calendar_validation[OF h, where z = utcZone and config = exConfig and e = exEnv
      and i = 0 and files = "[''FOCUS-Reports/2024/13/40/x.csv.gz'']"]
  from th have p: "parseFilePath utcZone
        (''FOCUS-Reports/'' @ ''2024'' @ ''/'' @ ''13'' @ ''/'' @ ''40'' @ ''/'' @ ''x'' @ ''.csv.gz'')
       = Some \<lparr> year = ''2024'', month = ''13'', day = ''40'', filename = ''x'' @ ''.csv.gz'',
                fullPath = ''FOCUS-Reports/'' @ ''2024'' @ ''/'' @ ''13'' @ ''/'' @ ''40'' @ ''/'' @ ''x'' @ ''.csv.gz'',
                date = newDate utcZone (parseInt ''2024'') (parseInt ''13'' - 1) (parseInt ''40'') \<rparr>"
    by blast
  from th i f have m: "\<lparr> year = ''2024'', month = ''13'', day = ''40'', filename = ''x.csv.gz'',
        fullPath = ''FOCUS-Reports/2024/13/40/x.csv.gz'', date = newDate (zone exEnv) 2025 1 9 \<rparr>
        \<in> set (parsedFiles (scanFiles exConfig exEnv [''FOCUS-Reports/2024/13/40/x.csv.gz'']))"
    by blast
  from h d f i(2) p m show ?thesis by blast
qed

section \<open>Properties of the Mirror Stage\<close>

subsection \<open>Leftmost match\<close>




lemma textTransfers_bytes: "bytes (textTransfers out stats) = bytes stats"
  by (simp add: textTransfers_def split: option.splits)

lemma textBytes_transfers:
  "transfers (textBytes out stats) = transfers stats"
  "totalTransfers (textBytes out stats) = totalTransfers stats"
  by (simp_all add: textBytes_def split: option.splits)

lemma jsonStatsLine_iff:
  "jsonStatsLine jp ls = Some js \<longleftrightarrow>
     (\<exists>pre l post. ls = pre @ l # post \<and> hasMarkers l \<and> jp l = Some js
        \<and> (\<forall>l'\<in>set pre. \<not> (hasMarkers l' \<and> jp l' \<noteq> None)))"
proof (induction ls)
  case Nil
  show ?case by simp
next
  case (Cons a ls)
  show ?case
  proof (cases "hasMarkers a \<and> jp a \<noteq> None")
    case True
    then obtain x where x: "jp a = Some x" by auto
    with True have l: "jsonStatsLine jp (a # ls) = Some x" by simp
    show ?thesis
    proof
      assume "jsonStatsLine jp (a # ls) = Some js"
      with l have "x = js" by simp
      with True x have "a # ls = [] @ a # ls \<and> hasMarkers a \<and> jp a = Some js
          \<and> (\<forall>l'\<in>set []. \<not> (hasMarkers l' \<and> jp l' \<noteq> None))"
        by simp
      then show "\<exists>pre l post. a # ls = pre @ l # post \<and> hasMarkers l \<and> jp l = Some js
        \<and> (\<forall>l'\<in>set pre. \<not> (hasMarkers l' \<and> jp l' \<noteq> None))"
        by blast
    next
      assume "\<exists>pre l post. a # ls = pre @ l # post \<and> hasMarkers l \<and> jp l = Some js
        \<and> (\<forall>l'\<in>set pre. \<not> (hasMarkers l' \<and> jp l' \<noteq> None))"
      then obtain pre l post where p: "a # ls = pre @ l # post" "hasMarkers l" "jp l = Some js"
        "\<forall>l'\<in>set pre. \<not> (hasMarkers l' \<and> jp l' \<noteq> None)"
        by blast
      have "pre = []"
      proof (cases pre)
        case (Cons b bs)
        with p(1) have "b = a" by simp
        with Cons p(4) True show ?thesis by auto
      qed simp
      with p(1,3) x have "x = js" by simp
      with l show "jsonStatsLine jp (a # ls) = Some js" by simp
    qed
  next
    case False
    then have l: "jsonStatsLine jp (a # ls) = jsonStatsLine jp ls"
      by (auto split: option.splits)
    show ?thesis
    proof
      assume "jsonStatsLine jp (a # ls) = Some js"
      with l Cons.IH obtain pre l' post where p: "ls = pre @ l' # post" "hasMarkers l'"
        "jp l' = Some js" "\<forall>x\<in>set pre. \<not> (hasMarkers x \<and> jp x \<noteq> None)"
        by auto
      with False have "a # ls = (a # pre) @ l' # post \<and> hasMarkers l' \<and> jp l' = Some js
          \<and> (\<forall>x\<in>set (a # pre). \<not> (hasMarkers x \<and> jp x \<noteq> None))"
        by simp
      then show "\<exists>pre l post. a # ls = pre @ l # post \<and> hasMarkers l \<and> jp l = Some js
        \<and> (\<forall>l'\<in>set pre. \<not> (hasMarkers l' \<and> jp l' \<noteq> None))"
        by blast
    next
      assume "\<exists>pre l post. a # ls = pre @ l # post \<and> hasMarkers l \<and> jp l = Some js
        \<and> (\<forall>l'\<in>set pre. \<not> (hasMarkers l' \<and> jp l' \<noteq> None))"
      then obtain pre l' post where p: "a # ls = pre @ l' # post" "hasMarkers l'" "jp l' = Some js"
        "\<forall>x\<in>set pre. \<not> (hasMarkers x \<and> jp x \<noteq> None)"
        by blast
      from p(1,2,3) False obtain pre' where pre': "pre = a # pre'"
        by (cases pre) auto
      with p have "ls = pre' @ l' # post \<and> hasMarkers l' \<and> jp l' = Some js
          \<and> (\<forall>x\<in>set pre'. \<not> (hasMarkers x \<and> jp x \<noteq> None))"
        by simp
      then have "jsonStatsLine jp ls = Some js"
        using Cons.IH by blast
      with l show "jsonStatsLine jp (a # ls) = Some js" by simp
    qed
  qed
qed



lemma literalCI_append:
  "literalCI l s = Some r \<Longrightarrow> literalCI l (s @ post) = Some (r @ post)"
  by (induction l s rule: literalCI.induct) (auto split: if_splits)

lemma s1: "literalCI ''Transferred:'' (''Transferred: 1.5 GiB'' @ post) = Some ('' 1.5 GiB'' @ post)"
proof -
  have "literalCI ''Transferred:'' ''Transferred: 1.5 GiB'' = Some '' 1.5 GiB''"
    by code_simp
  then show ?thesis by (rule literalCI_append)
qed

lemma s2: "many1 isSpace ('' 1.5 GiB'' @ post) = Some ('' '', ''1.5 GiB'' @ post)"
  by (simp add: many1_def isSpace_def)








subsection \<open>Structured line first, textual patterns otherwise\<close>

lemma parse_json:
  "jsonStatsLine jp (splitStr CHR 0x0A out) = Some js \<Longrightarrow> parseRcloneOutput jp out = js"
  by (simp add: parseRcloneOutput_def)

lemma parse_text:
  assumes "jsonStatsLine jp (splitStr CHR 0x0A out) = None"
  shows "transfers (parseRcloneOutput jp out)
           = map_option (\<lambda>(n, m, p). Num (of_int (parseInt n))) (search transferredAt out)"
    and "totalTransfers (parseRcloneOutput jp out)
           = map_option (\<lambda>(n, m, p). Num (of_int (parseInt m))) (search transferredAt out)"
    and "bytes (parseRcloneOutput jp out)
           = map_option (\<lambda>(num, unit).
                 mathRound (timesNum (parseFloat num) (unitFactor (toUpperCase unit))))
               (search bytesAt out)"
  using assms
  by (auto simp: parseRcloneOutput_def textBytes_def textTransfers_def noStats_def
           split: option.splits)

text \<open>
  Claim C7. The parser returns the parse of the first line that holds both markers and
  parses as JSON, whatever the textual patterns would match: the textual patterns add
  nothing, also for fields that the structured line lacks. Only when no such line parses
  does it fall back to the two textual patterns, and then each fills its own fields:
  \<open>transfers\<close> and \<open>totalTransfers\<close> come from the first match of the "N / M, P%"
  pattern alone, \<open>bytes\<close> from the first match of the byte pattern alone.
\<close>

theorem structured_line_shadows_text:
  "(jsonStatsLine jp (splitStr CHR 0x0A out) = Some js \<longrightarrow> parseRcloneOutput jp out = js)
   \<and> (jsonStatsLine jp (splitStr CHR 0x0A out) = None \<longrightarrow>
        transfers (parseRcloneOutput jp out)
           = map_option (\<lambda>(n, m, p). Num (of_int (parseInt n))) (search transferredAt out)
        \<and> totalTransfers (parseRcloneOutput jp out)
           = map_option (\<lambda>(n, m, p). Num (of_int (parseInt m))) (search transferredAt out)
        \<and> bytes (parseRcloneOutput jp out)
           = map_option (\<lambda>(num, unit).
                 mathRound (timesNum (parseFloat num) (unitFactor (toUpperCase unit))))
               (search bytesAt out))
   \<and> (jsonStatsLine jp ls = Some js \<longleftrightarrow>
        (\<exists>pre l post. ls = pre @ l # post \<and> hasMarkers l \<and> jp l = Some js
           \<and> (\<forall>l'\<in>set pre. \<not> (hasMarkers l' \<and> jp l' \<noteq> None))))"
  using parse_json[of jp out js] parse_text[of jp out] jsonStatsLine_iff[of jp ls js]
  by blast

text \<open>
  One output, three lines: a transfer count, the structured line (without a \<open>bytes\<close>
  field), a byte quantity. With the structured line parsed the result is that line's
  object and \<open>bytes\<close> stays undefined; with no parseable line both patterns fill
  their fields; an output with only one of the two textual lines fills only that field.
\<close>

lemma ex_json_found:
  "jsonStatsLine exJson (splitStr CHR 0x0A
       (''Transferred: 5 / 7, 71%'' @ [CHR 0x0A] @ exJsonLine @ [CHR 0x0A] @ ''Transferred: 1.5 GiB''))
     = Some \<lparr> transfers = Some (Num 5), totalTransfers = None, bytes = None \<rparr>"
  by code_simp

lemma ex_no_json:
  "jsonStatsLine noJson (splitStr CHR 0x0A
       (''Transferred: 5 / 7, 71%'' @ [CHR 0x0A] @ exJsonLine @ [CHR 0x0A] @ ''Transferred: 1.5 GiB''))
     = None"
  "jsonStatsLine noJson (splitStr CHR 0x0A ''Transferred: 1.5 GiB'') = None"
  "jsonStatsLine noJson (splitStr CHR 0x0A ''Transferred: 5 / 7, 71%'') = None"
  by code_simp+

lemma ex_text:
  "parseRcloneOutput noJson
       (''Transferred: 5 / 7, 71%'' @ [CHR 0x0A] @ exJsonLine @ [CHR 0x0A] @ ''Transferred: 1.5 GiB'')
     = \<lparr> transfers = Some (Num 5), totalTransfers = Some (Num 7), bytes = Some (Num 1610612736) \<rparr>"
  "parseRcloneOutput noJson ''Transferred: 1.5 GiB''
     = \<lparr> transfers = None, totalTransfers = None, bytes = Some (Num 1610612736) \<rparr>"
  "parseRcloneOutput noJson ''Transferred: 5 / 7, 71%''
     = \<lparr> transfers = Some (Num 5), totalTransfers = Some (Num 7), bytes = None \<rparr>"
  by code_simp+

theorem structured_line_shadows_text_witness:
  "jsonStatsLine exJson (splitStr CHR 0x0A
       (''Transferred: 5 / 7, 71%'' @ [CHR 0x0A] @ exJsonLine @ [CHR 0x0A] @ ''Transferred: 1.5 GiB''))
     = Some \<lparr> transfers = Some (Num 5), totalTransfers = None, bytes = None \<rparr>
   \<and> parseRcloneOutput exJson
       (''Transferred: 5 / 7, 71%'' @ [CHR 0x0A] @ exJsonLine @ [CHR 0x0A] @ ''Transferred: 1.5 GiB'')
     = \<lparr> transfers = Some (Num 5), totalTransfers = None, bytes = None \<rparr>
   \<and> jsonStatsLine noJson (splitStr CHR 0x0A
       (''Transferred: 5 / 7, 71%'' @ [CHR 0x0A] @ exJsonLine @ [CHR 0x0A] @ ''Transferred: 1.5 GiB''))
     = None
   \<and> parseRcloneOutput noJson
       (''Transferred: 5 / 7, 71%'' @ [CHR 0x0A] @ exJsonLine @ [CHR 0x0A] @ ''Transferred: 1.5 GiB'')
     = \<lparr> transfers = Some (Num 5), totalTransfers = Some (Num 7), bytes = Some (Num 1610612736) \<rparr>
   \<and> parseRcloneOutput noJson ''Transferred: 1.5 GiB''
     = \<lparr> transfers = None, totalTransfers = None, bytes = Some (Num 1610612736) \<rparr>
   \<and> parseRcloneOutput noJson ''Transferred: 5 / 7, 71%''
     = \<lparr> transfers = Some (Num 5), totalTransfers = Some (Num 7), bytes = None \<rparr>"
  using ex_json_found ex_no_json(1) ex_text
    structured_line_shadows_text[where jp = exJson
      and out = "''Transferred: 5 / 7, 71%'' @ [CHR 0x0A] @ exJsonLine @ [CHR 0x0A] @ ''Transferred: 1.5 GiB''"
      and js = "\<lparr> transfers = Some (Num 5), totalTransfers = None, bytes = None \<rparr>"]
  by blast

subsection \<open>Byte units\<close>







subsection \<open>Exit code of the transfer tool\<close>

lemma sync_live:
  assumes "\<not> job_dryRun config"
  shows "exitCode (rclone env (syncArgs config)) \<noteq> 0 \<Longrightarrow>
           syncOciToGcs env config
             = ([''rclone sync failed with exit code '' @ showInt (exitCode (rclone env (syncArgs config))),
                 stderr (rclone env (syncArgs config))],
                Inl (''rclone sync failed with exit code ''
                       @ showInt (exitCode (rclone env (syncArgs config)))))"
    and "exitCode (rclone env (syncArgs config)) = 0 \<Longrightarrow>
           syncOciToGcs env config
             = ([], Inr \<lparr> files_transferred =
                           orZero (transfers (parseRcloneOutput (jsonParse env)
                             (stdout (rclone env (syncArgs config)) @ [CHR 0x0A]
                                @ stderr (rclone env (syncArgs config))))),
                         bytes_transferred =
                           orZero (bytes (parseRcloneOutput (jsonParse env)
                             (stdout (rclone env (syncArgs config)) @ [CHR 0x0A]
                                @ stderr (rclone env (syncArgs config))))),
                         sync_duration_seconds = syncDuration env \<rparr>)"
  using assms by (simp_all add: syncOciToGcs_def Let_def)

text \<open>
  Claim C6. In live mode a non-zero exit code makes the stage throw (the message names
  the exit code, and the tool's diagnostic output is logged at error level) and no
  statistics are returned; the stage returns a result exactly when the exit code is zero,
  and that result carries both counters. There is no third outcome.
\<close>

theorem sync_all_or_nothing:
  assumes "\<not> job_dryRun config"
  shows "(exitCode (rclone env (syncArgs config)) \<noteq> 0 \<longrightarrow>
            snd (syncOciToGcs env config)
              = Inl (''rclone sync failed with exit code ''
                       @ showInt (exitCode (rclone env (syncArgs config))))
            \<and> stderr (rclone env (syncArgs config)) \<in> set (fst (syncOciToGcs env config)))
     \<and> ((\<exists>res. snd (syncOciToGcs env config) = Inr res)
          \<longleftrightarrow> exitCode (rclone env (syncArgs config)) = 0)
     \<and> (exitCode (rclone env (syncArgs config)) = 0 \<longrightarrow>
          snd (syncOciToGcs env config)
            = Inr \<lparr> files_transferred =
                      orZero (transfers (parseRcloneOutput (jsonParse env)
                        (stdout (rclone env (syncArgs config)) @ [CHR 0x0A]
                           @ stderr (rclone env (syncArgs config))))),
                    bytes_transferred =
                      orZero (bytes (parseRcloneOutput (jsonParse env)
                        (stdout (rclone env (syncArgs config)) @ [CHR 0x0A]
                           @ stderr (rclone env (syncArgs config))))),
                    sync_duration_seconds = syncDuration env \<rparr>)"
proof (cases "exitCode (rclone env (syncArgs config)) = 0")
  case True
  from sync_live(2)[OF assms True] True show ?thesis by simp
next
  case False
  from sync_live(1)[OF assms False] False show ?thesis by simp
qed

lemma ex_sync_fail:
  "syncOciToGcs (exSyncEnv ''Transferred: 5 / 7, 71%'' ''connection reset'' 3) exConfig
     = ([''rclone sync failed with exit code 3'', ''connection reset''],
        Inl ''rclone sync failed with exit code 3'')"
  by code_simp

lemma ex_sync_ok:
  "syncOciToGcs (exSyncEnv ''Transferred: 5 / 7, 71%'' ''Transferred: 1.5 GiB'' 0) exConfig
     = ([], Inr \<lparr> files_transferred = 5, bytes_transferred = 1610612736,
                  sync_duration_seconds = 2 \<rparr>)"
  by code_simp

theorem sync_all_or_nothing_witness:
  "\<not> job_dryRun exConfig
   \<and> exitCode (rclone (exSyncEnv ''Transferred: 5 / 7, 71%'' ''connection reset'' 3) (syncArgs exConfig)) = 3
   \<and> syncOciToGcs (exSyncEnv ''Transferred: 5 / 7, 71%'' ''connection reset'' 3) exConfig
       = ([''rclone sync failed with exit code 3'', ''connection reset''],
          Inl ''rclone sync failed with exit code 3'')
   \<and> exitCode (rclone (exSyncEnv ''Transferred: 5 / 7, 71%'' ''Transferred: 1.5 GiB'' 0) (syncArgs exConfig)) = 0
   \<and> syncOciToGcs (exSyncEnv ''Transferred: 5 / 7, 71%'' ''Transferred: 1.5 GiB'' 0) exConfig
       = ([], Inr \<lparr> files_transferred = 5, bytes_transferred = 1610612736,
                    sync_duration_seconds = 2 \<rparr>)"
proof -
  have live: "\<not> job_dryRun exConfig"
    by (simp add: exConfig_def)
  have c: "exitCode (rclone (exSyncEnv ''Transferred: 5 / 7, 71%'' ''connection reset'' 3) (syncArgs exConfig)) = 3"
    "exitCode (rclone (exSyncEnv ''Transferred: 5 / 7, 71%'' ''Transferred: 1.5 GiB'' 0) (syncArgs exConfig)) = 0"
    by (simp_all add: exSyncEnv_def)
  from sync_all_or_nothing[OF live, of "exSyncEnv ''Transferred: 5 / 7, 71%'' ''connection reset'' 3"]
    live c ex_sync_fail ex_sync_ok
  show ?thesis by blast
qed

end
